theory Spec2Isabelle
  imports Complex_Main "HOL-Library.AList"
begin

section \<open>The token cache, the refresher and the authenticated fetcher of server.js\<close>

text \<open>
  The theory embeds lines 39--128 of \<^verbatim>\<open>src/server.js\<close>: the credentials read from the
  environment, the module-level \<^verbatim>\<open>tokenCache\<close>, \<^verbatim>\<open>refreshAccessToken\<close>,
  \<^verbatim>\<open>getAccessToken\<close> and \<^verbatim>\<open>fetchGoogle\<close>. The functions are asynchronous and mutate
  shared state; the model is a single task that passes the state explicitly. A thrown
  \<^verbatim>\<open>Error\<close> (or a rejected promise) is the \<open>Inl\<close> of a sum.
\<close>

subsection \<open>Strings\<close>

text \<open>
  A string of the language is the list of its code units (numbers below \<open>2^16\<close>);
  \<open>str\<close> writes one down from its ASCII text.
\<close>

type_synonym jsstring = "nat list"

definition str :: "string \<Rightarrow> jsstring" where
  "str s = map of_char s"

text \<open>
  A string that may be \<^verbatim>\<open>null\<close> or \<^verbatim>\<open>undefined\<close> (an environment variable, the
  cached token, the \<^verbatim>\<open>access_token\<close> of a token response) is a \<open>jsstring option\<close>.
  It is truthy when it is there and not empty.
\<close>

fun truthy_str :: "jsstring option \<Rightarrow> bool" where
  "truthy_str None = False"
| "truthy_str (Some s) = (s \<noteq> [])"

text \<open>The text a template literal \<^verbatim>\<open>`${token}`\<close> inserts.\<close>

fun template :: "jsstring option \<Rightarrow> jsstring" where
  "template None = str ''null''"
| "template (Some s) = s"

subsection \<open>Numbers\<close>

text \<open>
  A number of the language is an IEEE 754 double: a rational (the two zeros are one value
  here: addition, subtraction, multiplication, \<^verbatim>\<open><\<close> and truthiness, which are all the
  code applies, do not tell them apart), one of the infinities, or \<^verbatim>\<open>NaN\<close>.
\<close>

datatype jsnum = Num rat | PosInf | NegInf | NaN

text \<open>
  The double nearest to a rational, ties to the even significand. A positive \<open>q\<close> is
  scaled by powers of two until \<open>2^52 \<le> m < 2^53\<close> with \<open>q = m * 2^e\<close>, the exponent
  \<open>e\<close> kept within \<open>-1074 .. 971\<close> (below, the doubles are subnormal; above, they end);
  \<open>m\<close> is rounded to an integer; a result of \<open>2^1024\<close> or more is infinite.
\<close>

definition round_half_even :: "rat \<Rightarrow> int" where
  "round_half_even q =
     (let f = \<lfloor>q\<rfloor>; r = q - of_int f
      in if r < 1 / 2 then f else if 1 / 2 < r then f + 1 else if even f then f else f + 1)"

function scale_up :: "rat \<Rightarrow> int \<Rightarrow> rat \<times> int" where
  "scale_up q e = (if e \<le> - 1074 \<or> 2 ^ 52 \<le> q then (q, e) else scale_up (2 * q) (e - 1))"
  by pat_completeness auto
termination
  by (relation "measure (\<lambda>(q, e). nat (e + 1074))") auto

function scale_down :: "rat \<Rightarrow> int \<Rightarrow> rat \<times> int" where
  "scale_down q e = (if 971 \<le> e \<or> q < 2 ^ 53 then (q, e) else scale_down (q / 2) (e + 1))"
  by pat_completeness auto
termination
  by (relation "measure (\<lambda>(q, e). nat (971 - e))") auto

declare scale_up.simps [simp del] scale_down.simps [simp del]

definition double_pos :: "rat \<Rightarrow> jsnum" where
  "double_pos q =
     (let (m, e) = (if 2 ^ 53 \<le> q then scale_down q 0 else scale_up q 0)
      in if 2 ^ 53 \<le> m then PosInf
         else let v = of_int (round_half_even m) * 2 powi e
              in if 2 ^ 1024 \<le> v then PosInf else Num v)"

fun num_neg :: "jsnum \<Rightarrow> jsnum" where
  "num_neg (Num a) = Num (- a)"
| "num_neg PosInf = NegInf"
| "num_neg NegInf = PosInf"
| "num_neg NaN = NaN"

definition double_of :: "rat \<Rightarrow> jsnum" where
  "double_of q =
     (if q = 0 then Num 0 else if 0 < q then double_pos q else num_neg (double_pos (- q)))"

text \<open>\<^verbatim>\<open>a + b\<close>, \<^verbatim>\<open>a - b\<close>, \<^verbatim>\<open>a * b\<close>: the exact result, rounded.\<close>

fun num_add :: "jsnum \<Rightarrow> jsnum \<Rightarrow> jsnum" where
  "num_add (Num a) (Num b) = double_of (a + b)"
| "num_add NaN _ = NaN"
| "num_add _ NaN = NaN"
| "num_add PosInf NegInf = NaN"
| "num_add NegInf PosInf = NaN"
| "num_add PosInf _ = PosInf"
| "num_add _ PosInf = PosInf"
| "num_add NegInf _ = NegInf"
| "num_add _ NegInf = NegInf"

definition num_sub :: "jsnum \<Rightarrow> jsnum \<Rightarrow> jsnum" where
  "num_sub a b = num_add a (num_neg b)"

fun num_sign :: "jsnum \<Rightarrow> int" where
  "num_sign (Num a) = (if 0 < a then 1 else if a < 0 then - 1 else 0)"
| "num_sign PosInf = 1"
| "num_sign NegInf = - 1"
| "num_sign NaN = 0"

fun num_mul :: "jsnum \<Rightarrow> jsnum \<Rightarrow> jsnum" where
  "num_mul (Num a) (Num b) = double_of (a * b)"
| "num_mul NaN _ = NaN"
| "num_mul _ NaN = NaN"
| "num_mul x y =
     (if num_sign x * num_sign y = 0 then NaN
      else if 0 < num_sign x * num_sign y then PosInf else NegInf)"

text \<open>\<^verbatim>\<open>a < b\<close>: false as soon as one side is \<^verbatim>\<open>NaN\<close>.\<close>

fun num_lt :: "jsnum \<Rightarrow> jsnum \<Rightarrow> bool" where
  "num_lt (Num a) (Num b) = (a < b)"
| "num_lt NaN _ = False"
| "num_lt _ NaN = False"
| "num_lt PosInf _ = False"
| "num_lt _ NegInf = False"
| "num_lt _ _ = True"

text \<open>\<^verbatim>\<open>Date.now()\<close> read from a clock that shows \<open>t\<close> milliseconds: a whole number, of
  magnitude at most \<open>8.64 * 10^15\<close>.\<close>

definition clock :: "int \<Rightarrow> jsnum" where
  "clock t = Num (of_int t)"

subsection \<open>Values read from the token response\<close>

text \<open>The values a field of the parsed token response is read as (\<open>JUndefined\<close>: the
  field is not there).\<close>

datatype jsval = JUndefined | JNull | JBool bool | JNumber jsnum | JString jsstring

text \<open>Truthiness, as \<^verbatim>\<open>!x\<close> and \<^verbatim>\<open>x || y\<close> test it.\<close>

fun truthy :: "jsval \<Rightarrow> bool" where
  "truthy JUndefined = False"
| "truthy JNull = False"
| "truthy (JBool b) = b"
| "truthy (JNumber (Num n)) = (n \<noteq> 0)"
| "truthy (JNumber NaN) = False"
| "truthy (JNumber _) = True"
| "truthy (JString s) = (s \<noteq> [])"

text \<open>\<^verbatim>\<open>a || b\<close>\<close>

definition js_or :: "jsval \<Rightarrow> jsval \<Rightarrow> jsval" where
  "js_or a b = (if truthy a then a else b)"

text \<open>
  \<^verbatim>\<open>Number(v)\<close>. The conversion of a string is the built-in of the language; it is a
  parameter \<open>str2num\<close> of the model.
\<close>

fun Number_js :: "(jsstring \<Rightarrow> jsnum) \<Rightarrow> jsval \<Rightarrow> jsnum" where
  "Number_js str2num JUndefined = NaN"
| "Number_js str2num JNull = Num 0"
| "Number_js str2num (JBool b) = Num (if b then 1 else 0)"
| "Number_js str2num (JNumber n) = n"
| "Number_js str2num (JString s) = str2num s"

subsection \<open>Errors\<close>

text \<open>
  The errors the three functions throw: line 63, line 91 (with the status and the body),
  line 98, a body that does not parse at line 94, a rejected \<^verbatim>\<open>fetch\<close>, and the
  \<^verbatim>\<open>TypeError\<close> of a \<^verbatim>\<open>Headers\<close> object that refuses a name or a value (lines 119
  and 120).
\<close>

datatype error =
    ConfigurationError
  | UpstreamError nat jsstring
  | ProtocolError
  | JsonError
  | TransportError
  | TypeError

subsection \<open>Headers\<close>

text \<open>
  A \<^verbatim>\<open>Headers\<close> object holds one value for each header name, the names compared without
  regard to the case of ASCII letters: an association list whose keys are in lower case.
  \<^verbatim>\<open>append\<close> and \<^verbatim>\<open>set\<close> first strip the tabs, line feeds, carriage returns and
  spaces at both ends of the value; they throw when the name is not a token of HTTP, or
  when the stripped value has a code unit above 255, a NUL, a line feed or a carriage
  return. \<^verbatim>\<open>append\<close> joins the value to the one already there, \<^verbatim>\<open>set\<close> replaces it.
\<close>

type_synonym headers = "(jsstring \<times> jsstring) list"

definition lower_unit :: "nat \<Rightarrow> nat" where
  "lower_unit c = (if 65 \<le> c \<and> c \<le> 90 then c + 32 else c)"

definition lower :: "jsstring \<Rightarrow> jsstring" where
  "lower s = map lower_unit s"

definition http_whitespace :: "nat \<Rightarrow> bool" where
  "http_whitespace c = (c = 9 \<or> c = 10 \<or> c = 13 \<or> c = 32)"

definition normalize_value :: "jsstring \<Rightarrow> jsstring" where
  "normalize_value v = rev (dropWhile http_whitespace (rev (dropWhile http_whitespace v)))"

text \<open>The characters of a token: digits, letters and
  \<^verbatim>\<open>! # $ % & ' * + - . ^ _ ` | ~\<close>.\<close>

definition tchar :: "nat \<Rightarrow> bool" where
  "tchar c =
     ((48 \<le> c \<and> c \<le> 57) \<or> (65 \<le> c \<and> c \<le> 90) \<or> (97 \<le> c \<and> c \<le> 122) \<or>
      c \<in> set [33, 35, 36, 37, 38, 39, 42, 43, 45, 46, 94, 95, 96, 124, 126])"

definition valid_name :: "jsstring \<Rightarrow> bool" where
  "valid_name n = (n \<noteq> [] \<and> list_all tchar n)"

definition valid_value :: "jsstring \<Rightarrow> bool" where
  "valid_value v = list_all (\<lambda>c. c \<le> 255 \<and> c \<noteq> 0 \<and> c \<noteq> 10 \<and> c \<noteq> 13) v"

definition hdr_get :: "headers \<Rightarrow> jsstring \<Rightarrow> jsstring option" where
  "hdr_get hs n = map_of hs (lower n)"

definition hdr_append :: "headers \<Rightarrow> jsstring \<Rightarrow> jsstring \<Rightarrow> error + headers" where
  "hdr_append hs n v =
     (if \<not> valid_name n \<or> \<not> valid_value (normalize_value v) then Inl TypeError
      else Inr (case map_of hs (lower n) of
                  None \<Rightarrow> AList.update (lower n) (normalize_value v) hs
                | Some old \<Rightarrow> AList.update (lower n) (old @ str '', '' @ normalize_value v) hs))"

definition hdr_set :: "headers \<Rightarrow> jsstring \<Rightarrow> jsstring \<Rightarrow> error + headers" where
  "hdr_set hs n v =
     (if \<not> valid_name n \<or> \<not> valid_value (normalize_value v) then Inl TypeError
      else Inr (AList.update (lower n) (normalize_value v) hs))"

text \<open>\<^verbatim>\<open>new Headers(init)\<close> for a plain object \<open>init\<close>: its entries are appended in
  order.\<close>

fun fill :: "headers \<Rightarrow> (jsstring \<times> jsstring) list \<Rightarrow> error + headers" where
  "fill hs [] = Inr hs"
| "fill hs ((n, v) # init) =
     (case hdr_append hs n v of Inl err \<Rightarrow> Inl err | Inr hs' \<Rightarrow> fill hs' init)"

definition Headers_new :: "(jsstring \<times> jsstring) list \<Rightarrow> error + headers" where
  "Headers_new init = fill [] init"

subsection \<open>Requests, responses and the outside world\<close>

text \<open>The options of \<^verbatim>\<open>fetch\<close> that a caller of \<^verbatim>\<open>fetchGoogle\<close> passes: the
  properties \<^verbatim>\<open>method\<close>, \<^verbatim>\<open>headers\<close> (a plain object, its entries in order) and
  \<^verbatim>\<open>body\<close>, each of which may be left out.\<close>

record opts =
  opt_method :: "jsstring option"
  opt_headers :: "(jsstring \<times> jsstring) list option"
  opt_body :: "jsstring option"

text \<open>The arguments of the call \<^verbatim>\<open>fetch(url, { ...opts, headers })\<close> of line 121.\<close>

record request =
  rq_url :: jsstring
  rq_method :: "jsstring option"
  rq_headers :: headers
  rq_body :: "jsstring option"

record response =
  status :: nat
  text_body :: jsstring

text \<open>The POST of line 80 to the token endpoint.\<close>

record token_request =
  tq_url :: jsstring
  tq_method :: jsstring
  tq_headers :: "(jsstring \<times> jsstring) list"
  tq_body :: "(jsstring \<times> jsstring) list"

text \<open>The two fields that lines 95 and 96 read from the parsed body.\<close>

record token_json =
  access_token :: "jsstring option"
  expires_in :: jsval

text \<open>A response of the token endpoint: \<open>tr_json = None\<close> when the body is not JSON and
  \<^verbatim>\<open>res.json()\<close> rejects.\<close>

record token_response =
  tr_status :: nat
  tr_text :: jsstring
  tr_json :: "token_json option"

text \<open>\<^verbatim>\<open>fetch\<close> resolves with a response, or rejects: the network fails, or
  \<^verbatim>\<open>fetch\<close> refuses its arguments.\<close>

datatype 'a fetch_result = NetworkError | Response 'a

text \<open>\<^verbatim>\<open>res.ok\<close>\<close>

definition ok :: "nat \<Rightarrow> bool" where
  "ok st = (200 \<le> st \<and> st \<le> 299)"

text \<open>
  What the process does not decide. The three credentials are read once from the
  environment (lines 39--41). The answer of an endpoint to its \<open>k\<close>-th call is a number
  of milliseconds that pass until the body has been read, and the outcome.
\<close>

record env =
  GOOGLE_CLIENT_ID :: "jsstring option"
  GOOGLE_CLIENT_SECRET :: "jsstring option"
  GOOGLE_REFRESH_TOKEN :: "jsstring option"
  token_endpoint :: "nat \<Rightarrow> token_request \<Rightarrow> nat \<times> token_response fetch_result"
  api_endpoint :: "nat \<Rightarrow> request \<Rightarrow> nat \<times> response fetch_result"
  str2num :: "jsstring \<Rightarrow> jsnum"

record token_cache =
  accessToken :: "jsstring option"
  expiresAt :: jsnum

text \<open>
  What an observer of the process sees happen, in order: \<^verbatim>\<open>refreshAccessToken\<close> is
  entered, the token endpoint is called (the request, and how the call ended),
  \<^verbatim>\<open>fetchGoogle\<close> calls \<^verbatim>\<open>fetch\<close> (the request, and how the call ended).
\<close>

datatype event =
    RefreshEntered
  | TokenCall token_request "token_response fetch_result"
  | ApiCall request "response fetch_result"

fun is_token_call :: "event \<Rightarrow> bool" where
  "is_token_call (TokenCall _ _) = True"
| "is_token_call _ = False"

fun is_api_call :: "event \<Rightarrow> bool" where
  "is_api_call (ApiCall _ _) = True"
| "is_api_call _ = False"

text \<open>
  The state: the clock \<^verbatim>\<open>Date.now()\<close> reads, the module-level \<^verbatim>\<open>tokenCache\<close>, and
  the events so far. The events are an observation: the code does not read them, and
  only the endpoints count their earlier calls in them. Time passes while a
  \<^verbatim>\<open>fetch\<close> is awaited and not otherwise.
\<close>

record world =
  now :: int
  tokenCache :: token_cache
  trace :: "event list"

definition token_calls :: "world \<Rightarrow> event list" where
  "token_calls w = filter is_token_call (trace w)"

definition api_calls :: "world \<Rightarrow> event list" where
  "api_calls w = filter is_api_call (trace w)"

text \<open>Line 56.\<close>

definition initial_cache :: token_cache where
  "initial_cache = \<lparr>accessToken = None, expiresAt = Num 0\<rparr>"

subsection \<open>refreshAccessToken (lines 59--108)\<close>

definition TOKEN_ENDPOINT :: jsstring where
  "TOKEN_ENDPOINT = str ''https://oauth2.googleapis.com/token''"

definition credentials_missing :: "env \<Rightarrow> bool" where
  "credentials_missing e =
     (\<not> truthy_str (GOOGLE_CLIENT_ID e) \<or> \<not> truthy_str (GOOGLE_CLIENT_SECRET e)
      \<or> \<not> truthy_str (GOOGLE_REFRESH_TOKEN e))"

definition token_req :: "env \<Rightarrow> token_request" where
  "token_req e =
     \<lparr>tq_url = TOKEN_ENDPOINT,
      tq_method = str ''POST'',
      tq_headers = [(str ''Content-Type'', str ''application/x-www-form-urlencoded''),
                    (str ''User-Agent'', str ''google-oauth-playground'')],
      tq_body = [(str ''client_id'', template (GOOGLE_CLIENT_ID e)),
                 (str ''client_secret'', template (GOOGLE_CLIENT_SECRET e)),
                 (str ''refresh_token'', template (GOOGLE_REFRESH_TOKEN e)),
                 (str ''grant_type'', str ''refresh_token'')]\<rparr>"

definition refreshAccessToken :: "env \<Rightarrow> world \<Rightarrow> (error + jsstring option) \<times> world" where
  "refreshAccessToken e w0 =
     (let w = w0\<lparr>trace := trace w0 @ [RefreshEntered]\<rparr> in
      if credentials_missing e then (Inl ConfigurationError, w)
      else if num_lt (clock (now w)) (expiresAt (tokenCache w))
      then (Inr (accessToken (tokenCache w)), w)
      else
        let rq = token_req e;
            (d, r) = token_endpoint e (length (token_calls w)) rq;
            w1 = w\<lparr>now := now w + int d, trace := trace w @ [TokenCall rq r]\<rparr>
        in (case r of
              NetworkError \<Rightarrow> (Inl TransportError, w1)
            | Response res \<Rightarrow>
                if \<not> ok (tr_status res)
                then (Inl (UpstreamError (tr_status res) (tr_text res)), w1)
                else
                  (case tr_json res of
                     None \<Rightarrow> (Inl JsonError, w1)
                   | Some json \<Rightarrow>
                       let tok = access_token json;
                           expiresIn =
                             Number_js (str2num e) (js_or (expires_in json) (JNumber (Num 3600)))
                       in if \<not> truthy_str tok then (Inl ProtocolError, w1)
                          else
                            (Inr tok,
                             w1\<lparr>tokenCache :=
                                  \<lparr>accessToken = tok,
                                   expiresAt =
                                     num_add (clock (now w1))
                                       (num_mul (num_sub expiresIn (Num 60)) (Num 1000))\<rparr>\<rparr>))))"

subsection \<open>getAccessToken (lines 110--115)\<close>

definition getAccessToken :: "env \<Rightarrow> world \<Rightarrow> (error + jsstring option) \<times> world" where
  "getAccessToken e w =
     (if truthy_str (accessToken (tokenCache w)) \<and>
         num_lt (clock (now w)) (expiresAt (tokenCache w))
      then (Inr (accessToken (tokenCache w)), w)
      else refreshAccessToken e w)"

subsection \<open>fetchGoogle (lines 117--128)\<close>

text \<open>Lines 119--121: the arguments of \<^verbatim>\<open>fetch\<close> for the token \<open>tok\<close>, or the
  \<^verbatim>\<open>TypeError\<close> of line 119 or 120.\<close>

definition build_request :: "jsstring \<Rightarrow> opts \<Rightarrow> jsstring option \<Rightarrow> error + request" where
  "build_request url os tok =
     (case Headers_new (case opt_headers os of None \<Rightarrow> [] | Some h \<Rightarrow> h) of
        Inl err \<Rightarrow> Inl err
      | Inr hs \<Rightarrow>
          (case hdr_set hs (str ''Authorization'') (str ''Bearer '' @ template tok) of
             Inl err \<Rightarrow> Inl err
           | Inr hs' \<Rightarrow>
               Inr \<lparr>rq_url = url, rq_method = opt_method os, rq_headers = hs',
                    rq_body = opt_body os\<rparr>))"

function fetchGoogle :: "env \<Rightarrow> jsstring \<Rightarrow> opts \<Rightarrow> bool \<Rightarrow> world \<Rightarrow> (error + response) \<times> world" where
  "fetchGoogle e url os retry w =
     (case getAccessToken e w of
        (Inl err, w1) \<Rightarrow> (Inl err, w1)
      | (Inr token, w1) \<Rightarrow>
          (case build_request url os token of
             Inl err \<Rightarrow> (Inl err, w1)
           | Inr rq \<Rightarrow>
               (let (d, r) = api_endpoint e (length (api_calls w1)) rq;
                    w2 = w1\<lparr>now := now w1 + int d, trace := trace w1 @ [ApiCall rq r]\<rparr>
                in (case r of
                      NetworkError \<Rightarrow> (Inl TransportError, w2)
                    | Response res \<Rightarrow>
                        if status res = 401 \<and> retry
                        then (case refreshAccessToken e w2 of
                                (Inl err, w3) \<Rightarrow> (Inl err, w3)
                              | (Inr _, w3) \<Rightarrow> fetchGoogle e url os False w3)
                        else (Inr res, w2)))))"
  by pat_completeness auto
termination
  by (relation "measure (\<lambda>(e, url, os, retry, w). if retry then 1 else 0)") auto

declare fetchGoogle.simps [simp del]

subsection \<open>The state after a call\<close>

text \<open>The state in which line 80 has returned \<open>r\<close> after \<open>d\<close> milliseconds, and the one
  in which line 121 has.\<close>

definition after_token_call :: "env \<Rightarrow> world \<Rightarrow> nat \<Rightarrow> token_response fetch_result \<Rightarrow> world" where
  "after_token_call e w d r =
     w\<lparr>now := now w + int d, trace := trace w @ [RefreshEntered, TokenCall (token_req e) r]\<rparr>"

definition after_api_call :: "world \<Rightarrow> nat \<Rightarrow> request \<Rightarrow> response fetch_result \<Rightarrow> world" where
  "after_api_call w d rq r = w\<lparr>now := now w + int d, trace := trace w @ [ApiCall rq r]\<rparr>"

text \<open>Line 103, for the value \<open>v\<close> of \<^verbatim>\<open>json.expires_in\<close> and the clock at \<open>t\<close>.\<close>

definition expiry :: "env \<Rightarrow> int \<Rightarrow> jsval \<Rightarrow> jsnum" where
  "expiry e t v =
     num_add (clock t)
       (num_mul (num_sub (Number_js (str2num e) (js_or v (JNumber (Num 3600)))) (Num 60))
          (Num 1000))"

subsection \<open>What the caller's headers say\<close>

text \<open>
  The value that the entries \<open>init\<close> of the caller give the header name \<open>n\<close>: the
  stripped values of the entries with that name, whatever the case of its letters, in
  order and joined by a comma and a space; nothing when there is no such entry.
\<close>

definition join_values :: "jsstring list \<Rightarrow> jsstring option" where
  "join_values vs =
     (case vs of [] \<Rightarrow> None | v # rest \<Rightarrow> Some (foldl (\<lambda>a b. a @ str '', '' @ b) v rest))"

definition caller_value :: "(jsstring \<times> jsstring) list \<Rightarrow> jsstring \<Rightarrow> jsstring option" where
  "caller_value init n =
     join_values (map (\<lambda>(k, v). normalize_value v) (filter (\<lambda>(k, v). lower k = lower n) init))"

text \<open>The entries that \<^verbatim>\<open>Headers\<close> accepts.\<close>

definition valid_entry :: "jsstring \<times> jsstring \<Rightarrow> bool" where
  "valid_entry kv = (valid_name (fst kv) \<and> valid_value (normalize_value (snd kv)))"

text \<open>
  The request \<open>rq\<close> is the caller's with the token \<open>tok\<close> attached: URL, method and body
  are those of the call, the \<^verbatim>\<open>Authorization\<close> header is \<^verbatim>\<open>Bearer\<close>, a space and the
  token (stripped), and every other header name has the value that the caller's headers
  say.
\<close>

definition carries_token :: "jsstring \<Rightarrow> opts \<Rightarrow> jsstring option \<Rightarrow> request \<Rightarrow> bool" where
  "carries_token url os tok rq =
     (rq_url rq = url \<and> rq_method rq = opt_method os \<and> rq_body rq = opt_body os \<and>
      hdr_get (rq_headers rq) (str ''Authorization'') =
        Some (normalize_value (str ''Bearer '' @ template tok)) \<and>
      (\<forall>n. lower n \<noteq> lower (str ''Authorization'') \<longrightarrow>
           hdr_get (rq_headers rq) n =
           caller_value (case opt_headers os of None \<Rightarrow> [] | Some h \<Rightarrow> h) n))"

subsection \<open>Callers and the events of a run\<close>

text \<open>A caller that asks for the token several times, \<open>dt\<close> milliseconds passing before
  each call.\<close>

fun get_seq :: "env \<Rightarrow> nat list \<Rightarrow> world \<Rightarrow> (error + jsstring option) list \<times> world" where
  "get_seq e [] w = ([], w)"
| "get_seq e (dt # dts) w =
     (let (r, w1) = getAccessToken e (w\<lparr>now := now w + int dt\<rparr>);
          (rs, w2) = get_seq e dts w1
      in (r # rs, w2))"

text \<open>The events of a run that started in \<open>w\<close> and ended in \<open>w'\<close>.\<close>

definition new_events :: "world \<Rightarrow> world \<Rightarrow> event list" where
  "new_events w w' = drop (length (trace w)) (trace w')"

text \<open>What the caller of \<^verbatim>\<open>fetchGoogle\<close> gets when the call \<open>r\<close> was its last.\<close>

fun outcome :: "response fetch_result \<Rightarrow> error + response" where
  "outcome NetworkError = Inl TransportError"
| "outcome (Response res) = Inr res"

text \<open>The \<^verbatim>\<open>Authorization\<close> headers of the requests sent, in order.\<close>

fun authorizations :: "event list \<Rightarrow> jsstring option list" where
  "authorizations [] = []"
| "authorizations (ApiCall rq rs # evs) =
     hdr_get (rq_headers rq) (str ''Authorization'') # authorizations evs"
| "authorizations (ev # evs) = authorizations evs"

text \<open>From \<open>w\<close> to \<open>w'\<close> events were added, and the cache is the same unless the token
  endpoint answered one of the calls with a success status.\<close>

definition written_by_refresh :: "env \<Rightarrow> world \<Rightarrow> world \<Rightarrow> bool" where
  "written_by_refresh e w w' =
     (\<exists>new. trace w' = trace w @ new \<and>
        (tokenCache w' = tokenCache w \<or>
         (\<exists>res. TokenCall (token_req e) (Response res) \<in> set new \<and> ok (tr_status res))))"

text \<open>From \<open>w\<close> to \<open>w'\<close> events were added, and every request sent is the caller's with
  a token attached.\<close>

definition sends_framed :: "jsstring \<Rightarrow> opts \<Rightarrow> world \<Rightarrow> world \<Rightarrow> bool" where
  "sends_framed url os w w' =
     (\<exists>new. trace w' = trace w @ new \<and>
        (\<forall>rq rs. ApiCall rq rs \<in> set new \<longrightarrow> (\<exists>tok. carries_token url os tok rq)))"

subsection \<open>Number on strings\<close>

text \<open>
  \<^verbatim>\<open>Number\<close> applied to a string, after the grammar of the language: white space at
  both ends is dropped; the empty string is 0; then a binary, octal or hexadecimal
  integer with its prefix, or a decimal with an optional sign, an optional fraction and
  an optional exponent, or \<^verbatim>\<open>Infinity\<close> with an optional sign; anything else is
  \<^verbatim>\<open>NaN\<close>. The sample surroundings below pass it for \<open>str2num\<close>.
\<close>

definition js_whitespace :: "nat \<Rightarrow> bool" where
  "js_whitespace c =
     (c \<in> set [9, 10, 11, 12, 13, 32, 160, 5760, 8232, 8233, 8239, 8287, 12288, 65279] \<or>
      (8192 \<le> c \<and> c \<le> 8202))"

definition js_trim :: "jsstring \<Rightarrow> jsstring" where
  "js_trim s = rev (dropWhile js_whitespace (rev (dropWhile js_whitespace s)))"

definition digit_of :: "nat \<Rightarrow> nat \<Rightarrow> nat option" where
  "digit_of b c =
     (let v = (if 48 \<le> c \<and> c \<le> 57 then Some (c - 48)
               else if 97 \<le> c \<and> c \<le> 102 then Some (c - 87)
               else if 65 \<le> c \<and> c \<le> 70 then Some (c - 55)
               else None)
      in case v of None \<Rightarrow> None | Some d \<Rightarrow> if d < b then Some d else None)"

fun digits_value :: "nat \<Rightarrow> nat \<Rightarrow> jsstring \<Rightarrow> nat option" where
  "digits_value b acc [] = Some acc"
| "digits_value b acc (c # cs) =
     (case digit_of b c of None \<Rightarrow> None | Some d \<Rightarrow> digits_value b (b * acc + d) cs)"

text \<open>One digit or more, in base \<open>b\<close>.\<close>

definition natural :: "nat \<Rightarrow> jsstring \<Rightarrow> nat option" where
  "natural b s = (if s = [] then None else digits_value b 0 s)"

definition dec_digit :: "nat \<Rightarrow> bool" where
  "dec_digit c = (48 \<le> c \<and> c \<le> 57)"

text \<open>Nothing, or \<^verbatim>\<open>e\<close> or \<^verbatim>\<open>E\<close>, an optional sign and digits.\<close>

definition exponent_part :: "jsstring \<Rightarrow> int option" where
  "exponent_part s =
     (case s of
        [] \<Rightarrow> Some 0
      | c # t \<Rightarrow>
          if c = 101 \<or> c = 69
          then (case t of
                  [] \<Rightarrow> None
                | d # u \<Rightarrow>
                    if d = 43 then map_option int (natural 10 u)
                    else if d = 45 then map_option (\<lambda>n. - int n) (natural 10 u)
                    else map_option int (natural 10 t))
          else None)"

definition unsigned_decimal :: "jsstring \<Rightarrow> jsnum" where
  "unsigned_decimal s =
     (if s = str ''Infinity'' then PosInf
      else
        let ip = takeWhile dec_digit s;
            r1 = dropWhile dec_digit s;
            fp = (case r1 of [] \<Rightarrow> [] | c # t \<Rightarrow> if c = 46 then takeWhile dec_digit t else []);
            r2 = (case r1 of [] \<Rightarrow> [] | c # t \<Rightarrow> if c = 46 then dropWhile dec_digit t else r1)
        in if ip = [] \<and> fp = [] then NaN
           else (case (natural 10 (ip @ fp), exponent_part r2) of
                   (Some m, Some x) \<Rightarrow> double_of (of_nat m * 10 powi (x - int (length fp)))
                 | _ \<Rightarrow> NaN))"

definition prefixed :: "nat \<Rightarrow> jsstring \<Rightarrow> jsnum" where
  "prefixed b s = (case natural b s of None \<Rightarrow> NaN | Some n \<Rightarrow> double_of (of_nat n))"

definition StringToNumber :: "jsstring \<Rightarrow> jsnum" where
  "StringToNumber s0 =
     (case js_trim s0 of
        [] \<Rightarrow> Num 0
      | c # t \<Rightarrow>
          if c = 48 \<and> t \<noteq> [] \<and> (hd t = 120 \<or> hd t = 88) then prefixed 16 (tl t)
          else if c = 48 \<and> t \<noteq> [] \<and> (hd t = 111 \<or> hd t = 79) then prefixed 8 (tl t)
          else if c = 48 \<and> t \<noteq> [] \<and> (hd t = 98 \<or> hd t = 66) then prefixed 2 (tl t)
          else if c = 43 then unsigned_decimal t
          else if c = 45 then num_neg (unsigned_decimal t)
          else unsigned_decimal (c # t))"

subsection \<open>Sample surroundings\<close>

text \<open>
  Concrete surroundings, to run the functions on: endpoints with a fixed answer, an API
  that answers 401 to one token and 200 to every other, and a process with the
  credentials \<^verbatim>\<open>a\<close>, \<^verbatim>\<open>b\<close>, \<^verbatim>\<open>c\<close>.
\<close>

definition token_reply ::
  "nat \<Rightarrow> nat \<Rightarrow> jsstring option \<Rightarrow> jsval \<Rightarrow> nat \<Rightarrow> token_request \<Rightarrow> nat \<times> token_response fetch_result" where
  "token_reply d st tok ei k rq =
     (d, Response \<lparr>tr_status = st, tr_text = str ''{}'',
                    tr_json = Some \<lparr>access_token = tok, expires_in = ei\<rparr>\<rparr>)"

definition api_reply :: "nat \<Rightarrow> nat \<Rightarrow> nat \<Rightarrow> request \<Rightarrow> nat \<times> response fetch_result" where
  "api_reply d st k rq = (d, Response \<lparr>status = st, text_body = str ''{}''\<rparr>)"

definition api_rejecting :: "jsstring \<Rightarrow> nat \<Rightarrow> request \<Rightarrow> nat \<times> response fetch_result" where
  "api_rejecting bad k rq =
     (100, Response
             \<lparr>status = (if hdr_get (rq_headers rq) (str ''Authorization'') = Some (str ''Bearer '' @ bad)
                         then 401 else 200),
              text_body = str ''{}''\<rparr>)"

definition demo_env ::
  "(nat \<Rightarrow> token_request \<Rightarrow> nat \<times> token_response fetch_result) \<Rightarrow>
   (nat \<Rightarrow> request \<Rightarrow> nat \<times> response fetch_result) \<Rightarrow> env" where
  "demo_env tep aep =
     \<lparr>GOOGLE_CLIENT_ID = Some (str ''a''), GOOGLE_CLIENT_SECRET = Some (str ''b''),
      GOOGLE_REFRESH_TOKEN = Some (str ''c''),
      token_endpoint = tep, api_endpoint = aep, str2num = StringToNumber\<rparr>"

definition world_at :: "int \<Rightarrow> token_cache \<Rightarrow> world" where
  "world_at t c = \<lparr>now = t, tokenCache = c, trace = []\<rparr>"

definition plain_get :: opts where
  "plain_get = \<lparr>opt_method = None, opt_headers = None, opt_body = None\<rparr>"

text \<open>
  A process started at \<open>now = 1000\<close> with the empty cache. Its token endpoint hands out
  \<^verbatim>\<open>T1\<close> to the first call and \<^verbatim>\<open>T2\<close> to every later one, each good for 3600
  seconds; its API has revoked \<^verbatim>\<open>T1\<close>.
\<close>

definition rotating_tokens :: "nat \<Rightarrow> token_request \<Rightarrow> nat \<times> token_response fetch_result" where
  "rotating_tokens k rq =
     token_reply 0 200 (Some (if k = 0 then str ''T1'' else str ''T2'')) (JNumber (Num 3600)) k rq"

definition revoked_env :: env where
  "revoked_env = demo_env rotating_tokens (api_rejecting (str ''T1''))"

definition start_world :: world where
  "start_world = world_at 1000 initial_cache"

text \<open>The same process, whose API answers 403 to every request.\<close>

definition forbidden_env :: env where
  "forbidden_env = demo_env rotating_tokens (api_reply 100 403)"

text \<open>A later moment of that process: \<^verbatim>\<open>T1\<close> is cached and the cache holds it valid.\<close>

definition cached_world :: world where
  "cached_world = world_at 1100 \<lparr>accessToken = Some (str ''T1''), expiresAt = Num 3541000\<rparr>"

text \<open>The process without a refresh token in its environment.\<close>

definition no_refresh_token_env :: env where
  "no_refresh_token_env = revoked_env\<lparr>GOOGLE_REFRESH_TOKEN := None\<rparr>"

text \<open>A process started at \<open>now = 0\<close> whose token endpoint answers \<^verbatim>\<open>T1\<close> with the
  \<^verbatim>\<open>expires_in\<close> \<open>v\<close>.\<close>

definition lifetime_env :: "jsval \<Rightarrow> env" where
  "lifetime_env v = demo_env (token_reply 0 200 (Some (str ''T1'')) v) (api_reply 100 200)"

definition zero_world :: world where
  "zero_world = world_at 0 initial_cache"

text \<open>A token endpoint that is down (503 after 5 milliseconds), and a moment at which the
  cached \<^verbatim>\<open>T1\<close> has expired.\<close>

definition failing_token_env :: env where
  "failing_token_env = demo_env (token_reply 5 503 None JUndefined) (api_reply 100 200)"

definition expired_world :: world where
  "expired_world = world_at 4000000 \<lparr>accessToken = Some (str ''T1''), expiresAt = Num 3541000\<rparr>"

text \<open>
  Options of callers with headers of their own: one whose values carry spaces and whose
  names differ in case only, and one with a header name that has a space in it.
\<close>

definition json_post :: opts where
  "json_post =
     \<lparr>opt_method = Some (str ''POST''),
      opt_headers = Some [(str ''Content-Type'', str ''application/json''),
                          (str ''X-Trace'', str '' 7 ''),
                          (str ''x-trace'', str ''8'')],
      opt_body = Some (str ''{}'')\<rparr>"

definition bad_header_get :: opts where
  "bad_header_get =
     \<lparr>opt_method = None, opt_headers = Some [(str ''X Trace'', str ''7'')], opt_body = None\<rparr>"

section \<open>Numbers: whole numbers below \<open>2^53\<close> are doubles\<close>

lemma scale_up_inv:
  "scale_up q e = (m, e') \<Longrightarrow>
     m * 2 powi e' = q * 2 powi e \<and> (q \<in> \<int> \<longrightarrow> m \<in> \<int>) \<and> (q < 2 ^ 53 \<longrightarrow> m < 2 ^ 53)"
proof (induction q e rule: scale_up.induct)
  case (1 q e)
  show ?case
  proof (cases "e \<le> - 1074 \<or> 2 ^ 52 \<le> q")
    case True
    with "1.prems" show ?thesis by (simp add: scale_up.simps[of q e])
  next
    case False
    with "1.prems" have r: "scale_up (2 * q) (e - 1) = (m, e')"
      by (simp add: scale_up.simps[of q e])
    from False have "q < 2 ^ 52" by simp
    then have lt: "2 * q < 2 ^ 53" by simp
    have p: "(2::rat) * 2 powi (e - 1) = 2 powi e"
      by (simp add: power_int_diff)
    from "1.IH"[OF False r] lt p show ?thesis
      by (auto simp: mult.assoc)
  qed
qed

lemma round_half_even_int: "q \<in> \<int> \<Longrightarrow> of_int (round_half_even q) = q"
  by (auto simp: round_half_even_def Ints_def)

lemma double_pos_int:
  assumes "q \<in> \<int>" "0 < q" "q < 2 ^ 53"
  shows "double_pos q = Num q"
proof -
  obtain m e where s: "scale_up q 0 = (m, e)" by (cases "scale_up q 0")
  from scale_up_inv[OF s] assms have m: "m * 2 powi e = q" "m \<in> \<int>" "m < 2 ^ 53" by auto
  have "q < 2 ^ 1024" using assms(3) by (rule less_trans) simp
  with m s assms show ?thesis
    by (simp add: double_pos_def round_half_even_int)
qed

lemma double_of_Ints: "q \<in> \<int> \<Longrightarrow> \<bar>q\<bar> < 2 ^ 53 \<Longrightarrow> double_of q = Num q"
  by (auto simp: double_of_def double_pos_int)

text \<open>An odd whole number above \<open>2^53\<close> is no double: it goes to its even neighbour.\<close>

lemma double_of_odd_above_2_53: "double_of 9999999999941001 = Num 9999999999941000"
  by code_simp

lemma num_lt_clock_mono: "num_lt (clock (a + int d)) x \<Longrightarrow> num_lt (clock a) x"
  by (cases x) (auto simp: clock_def)

section \<open>Headers: what a filled object holds\<close>

lemma valid_name_Authorization: "valid_name (str ''Authorization'')"
  by (simp add: valid_name_def str_def tchar_def)

lemma hdr_append_Inr:
  assumes "hdr_append hs n v = Inr hs'"
  shows "valid_entry (n, v)"
    and "hdr_get hs' m =
           (if lower m = lower n
            then Some (case hdr_get hs n of None \<Rightarrow> normalize_value v
                       | Some old \<Rightarrow> old @ str '', '' @ normalize_value v)
            else hdr_get hs m)"
  using assms
  by (auto simp: hdr_append_def valid_entry_def hdr_get_def update_conv'
           split: if_splits option.splits)

lemma hdr_append_Inl:
  "hdr_append hs n v = Inl err \<Longrightarrow> err = TypeError \<and> \<not> valid_entry (n, v)"
  by (auto simp: hdr_append_def valid_entry_def split: if_splits)

text \<open>Joining further values to what a name already has.\<close>

lemma foldl_join_Some:
  "foldl (\<lambda>a v. Some (case a of None \<Rightarrow> v | Some old \<Rightarrow> old @ str '', '' @ v)) (Some a0) vs =
     Some (foldl (\<lambda>a b. a @ str '', '' @ b) a0 vs)"
  by (induction vs arbitrary: a0) simp_all

lemma foldl_join_None:
  "foldl (\<lambda>a v. Some (case a of None \<Rightarrow> v | Some old \<Rightarrow> old @ str '', '' @ v)) None vs =
     join_values vs"
  by (cases vs) (simp_all add: join_values_def foldl_join_Some)

lemma fill_Inr:
  assumes "fill hs init = Inr hs'"
  shows "list_all valid_entry init \<and>
         hdr_get hs' m =
           foldl (\<lambda>a v. Some (case a of None \<Rightarrow> v | Some old \<Rightarrow> old @ str '', '' @ v))
             (hdr_get hs m)
             (map (\<lambda>(k, v). normalize_value v) (filter (\<lambda>(k, v). lower k = lower m) init))"
  using assms
proof (induction init arbitrary: hs)
  case Nil
  then show ?case by simp
next
  case (Cons kv init)
  obtain n v where kv: "kv = (n, v)" by (cases kv)
  from Cons.prems kv obtain h1 where a: "hdr_append hs n v = Inr h1" and f: "fill h1 init = Inr hs'"
    by (auto split: sum.splits)
  from hdr_append_Inr[OF a] Cons.IH[OF f] kv show ?case
    by (auto simp: hdr_get_def)
qed

lemma fill_Inl: "fill hs init = Inl err \<Longrightarrow> err = TypeError \<and> \<not> list_all valid_entry init"
proof (induction init arbitrary: hs)
  case Nil
  then show ?case by simp
next
  case (Cons kv init)
  obtain n v where kv: "kv = (n, v)" by (cases kv)
  show ?case
  proof (cases "hdr_append hs n v")
    case (Inl e1)
    with Cons.prems kv hdr_append_Inl[OF Inl] show ?thesis by simp
  next
    case (Inr h1)
    with Cons.prems kv have "fill h1 init = Inl err" by simp
    from Cons.IH[OF this] kv show ?thesis by simp
  qed
qed

lemma Headers_new_Inr:
  "Headers_new init = Inr hs \<Longrightarrow> list_all valid_entry init \<and> hdr_get hs m = caller_value init m"
  using fill_Inr[of "[]" init hs m]
  by (simp add: Headers_new_def caller_value_def foldl_join_None hdr_get_def)

lemma Headers_new_Inl:
  "Headers_new init = Inl err \<Longrightarrow> err = TypeError \<and> \<not> list_all valid_entry init"
  using fill_Inl[of "[]" init err] by (simp add: Headers_new_def)

lemma build_request_Inr:
  assumes "build_request url os tok = Inr rq"
  shows "carries_token url os tok rq"
    and "list_all valid_entry (case opt_headers os of None \<Rightarrow> [] | Some h \<Rightarrow> h)"
    and "valid_value (normalize_value (str ''Bearer '' @ template tok))"
proof -
  let ?init = "case opt_headers os of None \<Rightarrow> [] | Some h \<Rightarrow> h"
  from assms obtain hs where hs: "Headers_new ?init = Inr hs"
    by (auto simp: build_request_def split: sum.splits)
  from assms hs obtain hs' where
    st: "hdr_set hs (str ''Authorization'') (str ''Bearer '' @ template tok) = Inr hs'" and
    rq: "rq = \<lparr>rq_url = url, rq_method = opt_method os, rq_headers = hs', rq_body = opt_body os\<rparr>"
    by (auto simp: build_request_def split: sum.splits)
  from st have v: "valid_value (normalize_value (str ''Bearer '' @ template tok))"
    and hs': "hs' = AList.update (lower (str ''Authorization''))
                      (normalize_value (str ''Bearer '' @ template tok)) hs"
    by (auto simp: hdr_set_def split: if_splits)
  from Headers_new_Inr[OF hs] have val: "list_all valid_entry ?init"
    and get: "\<And>m. hdr_get hs m = caller_value ?init m" by auto
  show "carries_token url os tok rq"
    using get by (simp add: carries_token_def rq hs' hdr_get_def update_conv')
  show "list_all valid_entry ?init" by (rule val)
  show "valid_value (normalize_value (str ''Bearer '' @ template tok))" by (rule v)
qed

lemma build_request_Inl:
  assumes "build_request url os tok = Inl err"
  shows "err = TypeError \<and>
         \<not> (list_all valid_entry (case opt_headers os of None \<Rightarrow> [] | Some h \<Rightarrow> h) \<and>
            valid_value (normalize_value (str ''Bearer '' @ template tok)))"
proof (cases "Headers_new (case opt_headers os of None \<Rightarrow> [] | Some h \<Rightarrow> h)")
  case (Inl e1)
  with assms Headers_new_Inl[OF Inl] show ?thesis by (simp add: build_request_def)
next
  case (Inr hs)
  with assms show ?thesis
    by (auto simp: build_request_def hdr_set_def valid_name_Authorization
             split: sum.splits if_splits)
qed

section \<open>How the three functions run\<close>

lemma token_calls_snoc [simp]:
  "token_calls (w\<lparr>trace := trace w @ [ev]\<rparr>) =
     token_calls w @ (if is_token_call ev then [ev] else [])"
  by (simp add: token_calls_def)

lemma api_calls_snoc [simp]:
  "api_calls (w\<lparr>trace := trace w @ [ev]\<rparr>) =
     api_calls w @ (if is_api_call ev then [ev] else [])"
  by (simp add: api_calls_def)

lemma refresh_missing:
  "credentials_missing e \<Longrightarrow>
   refreshAccessToken e w = (Inl ConfigurationError, w\<lparr>trace := trace w @ [RefreshEntered]\<rparr>)"
  by (simp add: refreshAccessToken_def)

lemma refresh_cached:
  "\<not> credentials_missing e \<Longrightarrow> num_lt (clock (now w)) (expiresAt (tokenCache w)) \<Longrightarrow>
   refreshAccessToken e w =
     (Inr (accessToken (tokenCache w)), w\<lparr>trace := trace w @ [RefreshEntered]\<rparr>)"
  by (simp add: refreshAccessToken_def)

lemma refresh_network:
  assumes "\<not> credentials_missing e" "\<not> num_lt (clock (now w)) (expiresAt (tokenCache w))"
    and "token_endpoint e (length (token_calls w)) (token_req e) = (d, r)"
  shows "refreshAccessToken e w =
     (case r of
        NetworkError \<Rightarrow> (Inl TransportError, after_token_call e w d r)
      | Response res \<Rightarrow>
          if \<not> ok (tr_status res)
          then (Inl (UpstreamError (tr_status res) (tr_text res)), after_token_call e w d r)
          else (case tr_json res of
                  None \<Rightarrow> (Inl JsonError, after_token_call e w d r)
                | Some json \<Rightarrow>
                    if \<not> truthy_str (access_token json)
                    then (Inl ProtocolError, after_token_call e w d r)
                    else (Inr (access_token json),
                          (after_token_call e w d r)\<lparr>tokenCache :=
                             \<lparr>accessToken = access_token json,
                              expiresAt = expiry e (now w + int d) (expires_in json)\<rparr>\<rparr>)))"
  using assms
  by (simp add: refreshAccessToken_def after_token_call_def expiry_def Let_def
           split: fetch_result.splits option.splits)

lemma refresh_trace:
  "refreshAccessToken e w = (r, w') \<Longrightarrow>
     trace w' = trace w @ [RefreshEntered] \<or>
     (\<exists>rq rs. trace w' = trace w @ [RefreshEntered, TokenCall rq rs])"
  by (auto simp: refreshAccessToken_def Let_def
           split: if_splits prod.splits fetch_result.splits option.splits)

lemma get_trace:
  "getAccessToken e w = (r, w') \<Longrightarrow>
     trace w' = trace w \<or> trace w' = trace w @ [RefreshEntered] \<or>
     (\<exists>rq rs. trace w' = trace w @ [RefreshEntered, TokenCall rq rs])"
  by (auto simp: getAccessToken_def split: if_splits dest: refresh_trace)

lemma get_steps:
  assumes "getAccessToken e w = (r, w')"
  shows "w' = w \<or> refreshAccessToken e w = (r, w')"
  using assms by (auto simp: getAccessToken_def split: if_splits)

lemma fetch_token_error:
  "getAccessToken e w = (Inl err, w1) \<Longrightarrow> fetchGoogle e url os retry w = (Inl err, w1)"
  by (simp add: fetchGoogle.simps[of e url os retry w])

lemma fetch_build_error:
  "getAccessToken e w = (Inr tok, w1) \<Longrightarrow> build_request url os tok = Inl err \<Longrightarrow>
   fetchGoogle e url os retry w = (Inl err, w1)"
  by (simp add: fetchGoogle.simps[of e url os retry w])

lemma fetch_token_ok:
  assumes "getAccessToken e w = (Inr tok, w1)"
    and "build_request url os tok = Inr rq"
    and "api_endpoint e (length (api_calls w1)) rq = (d, rs)"
  shows "fetchGoogle e url os retry w =
     (case rs of
        NetworkError \<Rightarrow> (Inl TransportError, after_api_call w1 d rq rs)
      | Response res \<Rightarrow>
          if status res = 401 \<and> retry
          then (case refreshAccessToken e (after_api_call w1 d rq rs) of
                  (Inl err, w3) \<Rightarrow> (Inl err, w3)
                | (Inr x, w3) \<Rightarrow> fetchGoogle e url os False w3)
          else (Inr res, after_api_call w1 d rq rs))"
  using assms
  by (simp add: fetchGoogle.simps[of e url os retry w] after_api_call_def Let_def
           split: fetch_result.splits)

text \<open>A call of \<^verbatim>\<open>fetchGoogle\<close> ends in one of five ways.\<close>

lemma fetch_cases:
  assumes run: "fetchGoogle e url os retry w = (r, w')"
  obtains (token_error) err where "getAccessToken e w = (Inl err, w')" "r = Inl err"
  | (build_error) tok err where "getAccessToken e w = (Inr tok, w')"
      "build_request url os tok = Inl err" "r = Inl err"
  | (answered) tok w1 rq d rs where "getAccessToken e w = (Inr tok, w1)"
      "build_request url os tok = Inr rq"
      "api_endpoint e (length (api_calls w1)) rq = (d, rs)"
      "\<not> (\<exists>res. rs = Response res \<and> status res = 401 \<and> retry)"
      "w' = after_api_call w1 d rq rs" "r = outcome rs"
  | (refresh_error) tok w1 rq d res err where "getAccessToken e w = (Inr tok, w1)"
      "build_request url os tok = Inr rq"
      "api_endpoint e (length (api_calls w1)) rq = (d, Response res)"
      "status res = 401" "retry"
      "refreshAccessToken e (after_api_call w1 d rq (Response res)) = (Inl err, w')" "r = Inl err"
  | (retried) tok w1 rq d res x w3 where "getAccessToken e w = (Inr tok, w1)"
      "build_request url os tok = Inr rq"
      "api_endpoint e (length (api_calls w1)) rq = (d, Response res)"
      "status res = 401" "retry"
      "refreshAccessToken e (after_api_call w1 d rq (Response res)) = (Inr x, w3)"
      "fetchGoogle e url os False w3 = (r, w')"
proof (cases "getAccessToken e w")
  case (Pair a w1)
  show ?thesis
  proof (cases a)
    case (Inl err)
    with Pair run token_error show ?thesis by (simp add: fetch_token_error)
  next
    case (Inr tok)
    with Pair have g: "getAccessToken e w = (Inr tok, w1)" by simp
    show ?thesis
    proof (cases "build_request url os tok")
      case (Inl err)
      with g run build_error show ?thesis by (simp add: fetch_build_error)
    next
      case b: (Inr rq)
      obtain d rs where ep: "api_endpoint e (length (api_calls w1)) rq = (d, rs)"
        by (cases "api_endpoint e (length (api_calls w1)) rq")
      note unf = fetch_token_ok[OF g b ep, where retry = retry]
      show ?thesis
      proof (cases "\<exists>res. rs = Response res \<and> status res = 401 \<and> retry")
        case False
        with unf run have "w' = after_api_call w1 d rq rs" "r = outcome rs"
          by (auto split: fetch_result.splits if_splits)
        with g b ep False answered show ?thesis by blast
      next
        case True
        then obtain res where res: "rs = Response res" "status res = 401" "retry" by blast
        obtain c w3 where rf: "refreshAccessToken e (after_api_call w1 d rq (Response res)) = (c, w3)"
          by (cases "refreshAccessToken e (after_api_call w1 d rq (Response res))")
        show ?thesis
        proof (cases c)
          case (Inl err)
          with unf run res rf have "w' = w3" "r = Inl err" by auto
          with g b ep res rf Inl refresh_error show ?thesis by blast
        next
          case (Inr x)
          with unf run res rf have "fetchGoogle e url os False w3 = (r, w')" by auto
          with g b ep res rf Inr retried show ?thesis by blast
        qed
      qed
    qed
  qed
qed

lemma fetch_once:
  assumes "fetchGoogle e url os False w = (r, w')"
  shows "\<exists>g. filter is_api_call g = [] \<and>
           ((trace w' = trace w @ g \<and> (\<exists>err. r = Inl err)) \<or>
            (\<exists>rq rs. trace w' = trace w @ g @ [ApiCall rq rs] \<and> r = outcome rs))"
  using assms
proof (cases rule: fetch_cases)
  case (token_error err)
  from get_trace[OF token_error(1)] token_error(2) show ?thesis by auto
next
  case (build_error tok err)
  from get_trace[OF build_error(1)] build_error(3) show ?thesis by auto
next
  case (answered tok w1 rq d rs)
  from get_trace[OF answered(1)] obtain g where
    g: "trace w1 = trace w @ g" "filter is_api_call g = []" by auto
  from g answered(5,6) have "trace w' = trace w @ g @ [ApiCall rq rs] \<and> r = outcome rs"
    by (simp add: after_api_call_def)
  with g(2) show ?thesis by blast
next
  case (refresh_error tok w1 rq d res err)
  then show ?thesis by simp
next
  case (retried tok w1 rq d res x w3)
  then show ?thesis by simp
qed

text \<open>
  What holds from state to state along a call of \<^verbatim>\<open>fetchGoogle\<close>: a relation that the
  steps of the call respect (a refresh, a request built from the caller's options) and
  that composes.
\<close>

lemma fetch_invariant:
  assumes refl: "\<And>w. P w w"
    and trans: "\<And>a b c. P a b \<Longrightarrow> P b c \<Longrightarrow> P a c"
    and refresh: "\<And>w r w'. refreshAccessToken e w = (r, w') \<Longrightarrow> P w w'"
    and api: "\<And>w tok rq d rs. build_request url os tok = Inr rq \<Longrightarrow>
                P w (after_api_call w d rq rs)"
    and run: "fetchGoogle e url os retry w = (r, w')"
  shows "P w w'"
proof -
  have get: "P w w1" if "getAccessToken e w = (a, w1)" for w a w1
    using get_steps[OF that] refl refresh by auto
  have once: "P w w'" if "fetchGoogle e url os False w = (r, w')" for w r w'
    using that
  proof (cases rule: fetch_cases)
    case (token_error err)
    then show ?thesis using get by blast
  next
    case (build_error tok err)
    then show ?thesis using get by blast
  next
    case (answered tok w1 rq d rs)
    with get[OF answered(1)] api[OF answered(2)] trans show ?thesis by blast
  next
    case (refresh_error tok w1 rq d res err)
    then show ?thesis by simp
  next
    case (retried tok w1 rq d res x w3)
    then show ?thesis by simp
  qed
  from run show ?thesis
  proof (cases rule: fetch_cases)
    case (token_error err)
    then show ?thesis using get by blast
  next
    case (build_error tok err)
    then show ?thesis using get by blast
  next
    case (answered tok w1 rq d rs)
    with get[OF answered(1)] api[OF answered(2)] trans show ?thesis by blast
  next
    case (refresh_error tok w1 rq d res err)
    from get[OF refresh_error(1)] api[OF refresh_error(2)] refresh[OF refresh_error(6)] trans
    show ?thesis by blast
  next
    case (retried tok w1 rq d res x w3)
    from get[OF retried(1)] api[OF retried(2)] refresh[OF retried(6)] once[OF retried(7)] trans
    show ?thesis by blast
  qed
qed

lemma refresh_cache_write:
  assumes "refreshAccessToken e w = (r, w')"
  shows "(tokenCache w' = tokenCache w) \<or>
         (\<exists>res j. new_events w w' = [RefreshEntered, TokenCall (token_req e) (Response res)] \<and>
            ok (tr_status res) \<and> tr_json res = Some j \<and> r = Inr (access_token j) \<and>
            truthy_str (access_token j) \<and>
            tokenCache w' = \<lparr>accessToken = access_token j,
                             expiresAt = expiry e (now w') (expires_in j)\<rparr>)"
  using assms
  by (auto simp: refreshAccessToken_def Let_def new_events_def expiry_def
           split: if_splits prod.splits fetch_result.splits option.splits)

lemma refresh_error_keeps_cache:
  "refreshAccessToken e w = (Inl err, w') \<Longrightarrow> tokenCache w' = tokenCache w"
  by (auto simp: refreshAccessToken_def Let_def
           split: if_splits prod.splits fetch_result.splits option.splits)

lemma written_refl: "written_by_refresh e w w"
  by (simp add: written_by_refresh_def)

lemma written_trans:
  "written_by_refresh e a b \<Longrightarrow> written_by_refresh e b c \<Longrightarrow> written_by_refresh e a c"
  unfolding written_by_refresh_def
  by (elim exE conjE) (rename_tac n1 n2, rule_tac x = "n1 @ n2" in exI, auto)

lemma written_refresh:
  "refreshAccessToken e w = (r, w') \<Longrightarrow> written_by_refresh e w w'"
  using refresh_cache_write[of e w r w'] refresh_trace[of e w r w']
  unfolding written_by_refresh_def new_events_def
  by auto

lemma written_api: "written_by_refresh e w (after_api_call w d rq rs)"
  by (simp add: written_by_refresh_def after_api_call_def)

lemma written_fetch:
  "fetchGoogle e url os retry w = (r, w') \<Longrightarrow> written_by_refresh e w w'"
  by (rule fetch_invariant[where P = "written_by_refresh e"])
     (auto intro: written_refl written_trans written_refresh written_api)

lemma framed_refl: "sends_framed url os w w"
  by (simp add: sends_framed_def)

lemma framed_trans:
  "sends_framed url os a b \<Longrightarrow> sends_framed url os b c \<Longrightarrow> sends_framed url os a c"
  unfolding sends_framed_def
  by (elim exE conjE) (rename_tac n1 n2, rule_tac x = "n1 @ n2" in exI, auto)

lemma framed_refresh: "refreshAccessToken e w = (r, w') \<Longrightarrow> sends_framed url os w w'"
  using refresh_trace[of e w r w'] unfolding sends_framed_def by auto

lemma framed_api:
  "build_request url os tok = Inr rq \<Longrightarrow> sends_framed url os w (after_api_call w d rq rs)"
  using build_request_Inr(1)[of url os tok rq]
  by (auto simp: sends_framed_def after_api_call_def)

lemma framed_fetch: "fetchGoogle e url os retry w = (r, w') \<Longrightarrow> sends_framed url os w w'"
  by (rule fetch_invariant[where P = "sends_framed url os"])
     (auto intro: framed_refl framed_trans framed_refresh framed_api)

lemma refresh_n_missing:
  "credentials_missing e \<Longrightarrow>
   ((\<lambda>v. snd (refreshAccessToken e v)) ^^ n) w = w\<lparr>trace := trace w @ replicate n RefreshEntered\<rparr>"
  by (induction n) (simp_all add: refresh_missing replicate_append_same)

lemma get_seq_cached:
  "truthy_str (accessToken (tokenCache w)) \<Longrightarrow>
   num_lt (clock (now w + int (sum_list dts))) (expiresAt (tokenCache w)) \<Longrightarrow>
   get_seq e dts w =
     (replicate (length dts) (Inr (accessToken (tokenCache w))),
      w\<lparr>now := now w + int (sum_list dts)\<rparr>)"
proof (induction dts arbitrary: w)
  case Nil
  then show ?case by simp
next
  case (Cons dt dts)
  let ?w = "w\<lparr>now := now w + int dt\<rparr>"
  from Cons.prems(2)
  have later: "num_lt (clock (now ?w + int (sum_list dts))) (expiresAt (tokenCache ?w))"
    by (simp add: add.assoc)
  from num_lt_clock_mono[OF later] have "num_lt (clock (now ?w)) (expiresAt (tokenCache ?w))" .
  with Cons.prems(1) have g: "getAccessToken e ?w = (Inr (accessToken (tokenCache w)), ?w)"
    by (simp add: getAccessToken_def)
  from Cons.IH[of ?w] Cons.prems(1) later g show ?case
    by (simp add: add.assoc)
qed

lemma refresh_success:
  assumes "\<not> credentials_missing e" "\<not> num_lt (clock (now w)) (expiresAt (tokenCache w))"
    and "token_endpoint e (length (token_calls w)) (token_req e) = (d, Response res)"
    and "ok (tr_status res)" "tr_json res = Some j" "truthy_str (access_token j)"
  shows "refreshAccessToken e w =
     (Inr (access_token j),
      (after_token_call e w d (Response res))\<lparr>tokenCache :=
         \<lparr>accessToken = access_token j,
          expiresAt = expiry e (now w + int d) (expires_in j)\<rparr>\<rparr>)"
  using refresh_network[OF assms(1,2,3)] assms(4,5,6) by simp

text \<open>After the cache has gone stale, \<^verbatim>\<open>getAccessToken\<close> refreshes with one call of the
  token endpoint.\<close>

lemma get_stale:
  assumes "\<not> credentials_missing e" "\<not> num_lt (clock (now v)) (expiresAt (tokenCache v))"
  shows "getAccessToken e v = refreshAccessToken e v \<and>
         length (filter is_token_call (new_events v (snd (getAccessToken e v)))) = 1"
proof -
  from assms(2) have g: "getAccessToken e v = refreshAccessToken e v"
    by (simp add: getAccessToken_def)
  obtain d' r' where ep: "token_endpoint e (length (token_calls v)) (token_req e) = (d', r')"
    by (cases "token_endpoint e (length (token_calls v)) (token_req e)")
  from refresh_network[OF assms(1,2) ep] g show ?thesis
    by (simp add: new_events_def after_token_call_def split: fetch_result.splits option.splits)
qed

section \<open>The stored expiry\<close>

lemma expiry_truthy_number:
  "truthy (JNumber x) \<Longrightarrow> expiry e t (JNumber x) = num_add (clock t) (num_mul (num_sub x (Num 60)) (Num 1000))"
  by (simp add: expiry_def js_or_def)

lemma expiry_falsy:
  "\<not> truthy v \<Longrightarrow> expiry e t v = num_add (clock t) (Num 3540000)"
  by (simp add: expiry_def js_or_def num_sub_def double_of_Ints)

lemma expiry_nan: "s \<noteq> [] \<Longrightarrow> str2num e s = NaN \<Longrightarrow> expiry e t (JString s) = NaN"
  by (simp add: expiry_def js_or_def num_sub_def clock_def)

text \<open>Where line 103 is exact: a whole number of seconds, and products and sums below
  \<open>2^53\<close>.\<close>

lemma double_of_int: "\<bar>k\<bar> < (2::int) ^ 53 \<Longrightarrow> double_of (of_int k) = Num (of_int k)"
proof (rule double_of_Ints)
  assume "\<bar>k\<bar> < (2::int) ^ 53"
  then have "(of_int \<bar>k\<bar> :: rat) < of_int (2 ^ 53)" by (simp only: of_int_less_iff)
  then show "\<bar>of_int k :: rat\<bar> < 2 ^ 53" by simp
qed simp

lemma num_add_int:
  "\<bar>a + b\<bar> < (2::int) ^ 53 \<Longrightarrow> num_add (Num (of_int a)) (Num (of_int b)) = Num (of_int (a + b))"
  unfolding num_add.simps of_int_add[symmetric] by (rule double_of_int)

lemma num_mul_int:
  "\<bar>a * b\<bar> < (2::int) ^ 53 \<Longrightarrow> num_mul (Num (of_int a)) (Num (of_int b)) = Num (of_int (a * b))"
  unfolding num_mul.simps of_int_mult[symmetric] by (rule double_of_int)

lemma num_sub_int:
  "\<bar>a - b\<bar> < (2::int) ^ 53 \<Longrightarrow> num_sub (Num (of_int a)) (Num (of_int b)) = Num (of_int (a - b))"
  using num_add_int[of a "- b"] by (simp add: num_sub_def)

lemma seconds_exact:
  assumes "\<bar>(n - 60) * 1000\<bar> < (2::int) ^ 53" "\<bar>t + (n - 60) * 1000\<bar> < (2::int) ^ 53"
  shows "num_add (clock t) (num_mul (num_sub (Num (of_int n)) (Num 60)) (Num 1000)) =
           clock (t + (n - 60) * 1000)"
proof -
  from assms(1) have a: "\<bar>n - 60\<bar> < (2::int) ^ 53" by simp
  have c: "Num 60 = Num (of_int 60)" "Num 1000 = Num (of_int 1000)" by simp_all
  show ?thesis
    unfolding c clock_def num_sub_int[OF a] num_mul_int[OF assms(1)] num_add_int[OF assms(2)]
    by (rule refl)
qed

lemma default_exact:
  assumes "\<bar>t + 3540000\<bar> < (2::int) ^ 53"
  shows "num_add (clock t) (Num 3540000) = clock (t + 3540000)"
  using assms by (simp add: clock_def double_of_Ints)

section \<open>Sample runs\<close>

lemmas run_defs =
  getAccessToken_def refreshAccessToken_def build_request_def Headers_new_def hdr_set_def
  hdr_get_def hdr_append_def lower_def lower_unit_def normalize_value_def http_whitespace_def
  valid_name_def valid_value_def tchar_def str_def credentials_missing_def api_calls_def
  token_calls_def Let_def ok_def js_or_def num_sub_def double_of_Ints clock_def demo_env_def
  token_reply_def api_reply_def api_rejecting_def world_at_def plain_get_def initial_cache_def
  rotating_tokens_def revoked_env_def start_world_def forbidden_env_def after_token_call_def
  after_api_call_def expiry_def new_events_def cached_world_def no_refresh_token_env_def
  lifetime_env_def zero_world_def json_post_def failing_token_env_def expired_world_def
  bad_header_get_def

lemma start_world_simps:
  "trace start_world = []" "now start_world = 1000" "tokenCache start_world = initial_cache"
  by (simp_all add: start_world_def world_at_def)

text \<open>The run of the process whose API has revoked \<^verbatim>\<open>T1\<close>.\<close>

lemma revoked_run:
  "fetchGoogle revoked_env (str ''u'') plain_get True start_world =
     (Inr \<lparr>status = 401, text_body = str ''{}''\<rparr>,
      \<lparr>now = 1200,
       tokenCache = \<lparr>accessToken = Some (str ''T1''), expiresAt = Num 3541000\<rparr>,
       trace =
         [RefreshEntered,
          TokenCall (token_req revoked_env)
            (Response \<lparr>tr_status = 200, tr_text = str ''{}'',
                       tr_json = Some \<lparr>access_token = Some (str ''T1''),
                                       expires_in = JNumber (Num 3600)\<rparr>\<rparr>),
          ApiCall \<lparr>rq_url = str ''u'', rq_method = None,
                   rq_headers = [(str ''authorization'', str ''Bearer T1'')], rq_body = None\<rparr>
            (Response \<lparr>status = 401, text_body = str ''{}''\<rparr>),
          RefreshEntered,
          ApiCall \<lparr>rq_url = str ''u'', rq_method = None,
                   rq_headers = [(str ''authorization'', str ''Bearer T1'')], rq_body = None\<rparr>
            (Response \<lparr>status = 401, text_body = str ''{}''\<rparr>)]\<rparr>)"
  by (simp add: fetchGoogle.simps run_defs)

section \<open>The refresh after a 401\<close>

text \<open>
  C1. The claim: after a first 401, the retry of \<^verbatim>\<open>fetchGoogle\<close> carries a token newly
  obtained from the token endpoint, even when the cache held the previous token valid.
  The run below is that scenario. The process starts with the empty cache and obtains
  \<^verbatim>\<open>T1\<close>; the API answers 401 to it; line 124 enters \<^verbatim>\<open>refreshAccessToken\<close>, whose
  check of lines 66--69 finds the cache valid and returns \<^verbatim>\<open>T1\<close> without a call of the
  token endpoint (which would have answered \<^verbatim>\<open>T2\<close>); the retry carries \<^verbatim>\<open>T1\<close> again
  and the caller gets the second 401.
\<close>

theorem retry_reuses_cached_token:
  "fst (fetchGoogle revoked_env (str ''u'') plain_get True start_world) =
     Inr \<lparr>status = 401, text_body = str ''{}''\<rparr> \<and>
   authorizations
     (new_events start_world (snd (fetchGoogle revoked_env (str ''u'') plain_get True start_world))) =
     [Some (str ''Bearer T1''), Some (str ''Bearer T1'')] \<and>
   length (filter is_token_call
     (new_events start_world (snd (fetchGoogle revoked_env (str ''u'') plain_get True start_world)))) = 1 \<and>
   length (filter (\<lambda>ev. ev = RefreshEntered)
     (new_events start_world (snd (fetchGoogle revoked_env (str ''u'') plain_get True start_world)))) = 2 \<and>
   snd (token_endpoint revoked_env 1 (token_req revoked_env)) =
     Response \<lparr>tr_status = 200, tr_text = str ''{}'',
               tr_json = Some \<lparr>access_token = Some (str ''T2''),
                               expires_in = JNumber (Num 3600)\<rparr>\<rparr>"
  unfolding revoked_run
  by (simp add: new_events_def start_world_simps hdr_get_def lower_def lower_unit_def str_def
        revoked_env_def demo_env_def rotating_tokens_def token_reply_def)

section \<open>The retry of fetchGoogle\<close>

text \<open>
  C3. A call of \<^verbatim>\<open>fetchGoogle\<close> sends at most two requests to the target, and at most
  one when \<open>retry\<close> is false, which is what the recursive call passes. When it sends two,
  the first was answered with status 401 and \<^verbatim>\<open>refreshAccessToken\<close> was entered next,
  before the second; the caller gets the outcome of the second request, whatever its
  status, and no third request follows it.
\<close>

theorem fetchGoogle_attempts:
  assumes "fetchGoogle e url os retry w = (r, w')"
  shows "\<exists>new. trace w' = trace w @ new \<and>
           length (filter is_api_call new) \<le> (if retry then 2 else 1) \<and>
           (length (filter is_api_call new) = 2 \<longrightarrow>
              (\<exists>pre rq1 res1 mid rq2 rs2.
                 new = pre @ ApiCall rq1 (Response res1) # RefreshEntered # mid @ [ApiCall rq2 rs2] \<and>
                 filter is_api_call pre = [] \<and> filter is_api_call mid = [] \<and>
                 status res1 = 401 \<and> r = outcome rs2))"
  using assms
proof (cases rule: fetch_cases)
  case (token_error err)
  from get_trace[OF token_error(1)] show ?thesis by auto
next
  case (build_error tok err)
  from get_trace[OF build_error(1)] show ?thesis by auto
next
  case (answered tok w1 rq d rs)
  from get_trace[OF answered(1)] obtain g where
    g: "trace w1 = trace w @ g" "filter is_api_call g = []" by auto
  from g answered(5) have "trace w' = trace w @ (g @ [ApiCall rq rs])"
    by (simp add: after_api_call_def)
  moreover from g have "length (filter is_api_call (g @ [ApiCall rq rs])) = 1" by simp
  ultimately show ?thesis
    by (intro exI[where x = "g @ [ApiCall rq rs]"]) simp
next
  case (refresh_error tok w1 rq d res err)
  from get_trace[OF refresh_error(1)] obtain g where
    g: "trace w1 = trace w @ g" "filter is_api_call g = []" by auto
  from refresh_trace[OF refresh_error(6)] obtain tk where
    tk: "trace w' = trace (after_api_call w1 d rq (Response res)) @ RefreshEntered # tk"
      "filter is_api_call tk = []" by auto
  let ?new = "g @ ApiCall rq (Response res) # RefreshEntered # tk"
  from g tk have "trace w' = trace w @ ?new" by (simp add: after_api_call_def)
  moreover from g tk have "length (filter is_api_call ?new) = 1" by simp
  ultimately show ?thesis using refresh_error(5)
    by (intro exI[where x = ?new]) simp
next
  case (retried tok w1 rq d res x w3)
  from get_trace[OF retried(1)] obtain g where
    g: "trace w1 = trace w @ g" "filter is_api_call g = []" by auto
  from refresh_trace[OF retried(6)] obtain tk where
    tk: "trace w3 = trace (after_api_call w1 d rq (Response res)) @ RefreshEntered # tk"
      "filter is_api_call tk = []" by auto
  from fetch_once[OF retried(7)] obtain g' where
    g': "filter is_api_call g' = []"
      "(trace w' = trace w3 @ g' \<and> (\<exists>err. r = Inl err)) \<or>
       (\<exists>rq2 rs2. trace w' = trace w3 @ g' @ [ApiCall rq2 rs2] \<and> r = outcome rs2)"
    by blast
  from g'(2) show ?thesis
  proof
    assume a: "trace w' = trace w3 @ g' \<and> (\<exists>err. r = Inl err)"
    let ?new = "g @ ApiCall rq (Response res) # RefreshEntered # tk @ g'"
    from a g tk have "trace w' = trace w @ ?new" by (simp add: after_api_call_def)
    moreover from g tk g' have "length (filter is_api_call ?new) = 1" by simp
    ultimately show ?thesis using retried(5)
      by (intro exI[where x = ?new]) simp
  next
    assume "\<exists>rq2 rs2. trace w' = trace w3 @ g' @ [ApiCall rq2 rs2] \<and> r = outcome rs2"
    then obtain rq2 rs2 where
      l: "trace w' = trace w3 @ g' @ [ApiCall rq2 rs2]" "r = outcome rs2" by blast
    let ?new = "g @ ApiCall rq (Response res) # RefreshEntered # (tk @ g') @ [ApiCall rq2 rs2]"
    have tr: "trace w' = trace w @ ?new"
      using l tk g by (simp add: after_api_call_def)
    have cnt: "length (filter is_api_call ?new) = 2"
      using tk g g' by simp
    have shape: "\<exists>pre rq1 res1 mid rq2' rs2'.
         ?new = pre @ ApiCall rq1 (Response res1) # RefreshEntered # mid @ [ApiCall rq2' rs2'] \<and>
         filter is_api_call pre = [] \<and> filter is_api_call mid = [] \<and>
         status res1 = 401 \<and> r = outcome rs2'"
      using tk g g' retried(4) l(2)
      by (intro exI[where x = g] exI[where x = rq] exI[where x = res]
            exI[where x = "tk @ g'"] exI[where x = rq2] exI[where x = rs2]) simp
    from tr cnt shape retried(5) show ?thesis
      by (intro exI[where x = ?new]) simp
  qed
qed

text \<open>The run against the API that has revoked \<^verbatim>\<open>T1\<close> sends two requests; the second
  401 is what the caller gets.\<close>

theorem fetchGoogle_attempts_witness:
  "length (filter is_api_call
     (new_events start_world
        (snd (fetchGoogle revoked_env (str ''u'') plain_get True start_world)))) = 2 \<and>
   fst (fetchGoogle revoked_env (str ''u'') plain_get True start_world) =
     Inr \<lparr>status = 401, text_body = str ''{}''\<rparr> \<and>
   (\<exists>new. trace (snd (fetchGoogle revoked_env (str ''u'') plain_get True start_world)) =
            trace start_world @ new \<and>
          length (filter is_api_call new) \<le> 2 \<and>
          (length (filter is_api_call new) = 2 \<longrightarrow>
             (\<exists>pre rq1 res1 mid rq2 rs2.
                new = pre @ ApiCall rq1 (Response res1) # RefreshEntered # mid @ [ApiCall rq2 rs2] \<and>
                filter is_api_call pre = [] \<and> filter is_api_call mid = [] \<and>
                status res1 = 401 \<and>
                fst (fetchGoogle revoked_env (str ''u'') plain_get True start_world) = outcome rs2)))"
proof -
  have run: "fetchGoogle revoked_env (str ''u'') plain_get True start_world =
     (fst (fetchGoogle revoked_env (str ''u'') plain_get True start_world),
      snd (fetchGoogle revoked_env (str ''u'') plain_get True start_world))"
    by simp
  have two: "length (filter is_api_call
     (new_events start_world
        (snd (fetchGoogle revoked_env (str ''u'') plain_get True start_world)))) = 2"
    by (simp add: revoked_run new_events_def start_world_simps)
  have res: "fst (fetchGoogle revoked_env (str ''u'') plain_get True start_world) =
     Inr \<lparr>status = 401, text_body = str ''{}''\<rparr>"
    by (simp add: revoked_run)
  from fetchGoogle_attempts[OF run] two res show ?thesis
    by simp
qed

text \<open>
  C6. When the request is answered with a status other than 401, \<^verbatim>\<open>fetchGoogle\<close>
  returns that response as it is. Since \<^verbatim>\<open>getAccessToken\<close> returned, the only thing
  that has happened is the one request: no second request and no further entry into
  \<^verbatim>\<open>refreshAccessToken\<close>.
\<close>

theorem fetchGoogle_other_status:
  assumes "getAccessToken e w = (Inr tok, w1)"
    and "build_request url os tok = Inr rq"
    and "api_endpoint e (length (api_calls w1)) rq = (d, Response res)"
    and "status res \<noteq> 401"
  shows "fetchGoogle e url os retry w =
           (Inr res, w1\<lparr>now := now w1 + int d,
                        trace := trace w1 @ [ApiCall rq (Response res)]\<rparr>)"
  using fetch_token_ok[OF assms(1,2,3), where retry = retry] assms(4)
  by (simp add: after_api_call_def)

theorem fetchGoogle_other_status_witness:
  "getAccessToken forbidden_env start_world =
     (Inr (Some (str ''T1'')), after_token_call forbidden_env start_world 0
        (Response \<lparr>tr_status = 200, tr_text = str ''{}'',
                   tr_json = Some \<lparr>access_token = Some (str ''T1''),
                                   expires_in = JNumber (Num 3600)\<rparr>\<rparr>)
        \<lparr>tokenCache := \<lparr>accessToken = Some (str ''T1''), expiresAt = Num 3541000\<rparr>\<rparr>) \<and>
   (403::nat) \<noteq> 401 \<and>
   fst (fetchGoogle forbidden_env (str ''u'') plain_get True start_world) =
     Inr \<lparr>status = 403, text_body = str ''{}''\<rparr> \<and>
   new_events start_world (snd (fetchGoogle forbidden_env (str ''u'') plain_get True start_world)) =
     [RefreshEntered,
      TokenCall (token_req forbidden_env)
        (Response \<lparr>tr_status = 200, tr_text = str ''{}'',
                   tr_json = Some \<lparr>access_token = Some (str ''T1''),
                                   expires_in = JNumber (Num 3600)\<rparr>\<rparr>),
      ApiCall \<lparr>rq_url = str ''u'', rq_method = None,
               rq_headers = [(str ''authorization'', str ''Bearer T1'')], rq_body = None\<rparr>
        (Response \<lparr>status = 403, text_body = str ''{}''\<rparr>)]"
proof -
  let ?tr = "Response \<lparr>tr_status = 200, tr_text = str ''{}'',
                   tr_json = Some \<lparr>access_token = Some (str ''T1''),
                                   expires_in = JNumber (Num 3600)\<rparr>\<rparr>"
  let ?w1 = "after_token_call forbidden_env start_world 0 ?tr
        \<lparr>tokenCache := \<lparr>accessToken = Some (str ''T1''), expiresAt = Num 3541000\<rparr>\<rparr>"
  let ?rq = "\<lparr>rq_url = str ''u'', rq_method = None,
               rq_headers = [(str ''authorization'', str ''Bearer T1'')], rq_body = None\<rparr>"
  have g: "getAccessToken forbidden_env start_world = (Inr (Some (str ''T1'')), ?w1)"
    by (simp add: run_defs)
  have b: "build_request (str ''u'') plain_get (Some (str ''T1'')) = Inr ?rq"
    by (simp add: run_defs)
  have a: "api_endpoint forbidden_env (length (api_calls ?w1)) ?rq =
           (100, Response \<lparr>status = 403, text_body = str ''{}''\<rparr>)"
    by (simp add: forbidden_env_def demo_env_def api_reply_def)
  have s: "status \<lparr>status = 403, text_body = str ''{}''\<rparr> \<noteq> 401" by simp
  from fetchGoogle_other_status[OF g b a s, of True] g show ?thesis
    by (simp add: after_token_call_def new_events_def start_world_simps)
qed

section \<open>The request that is sent\<close>

text \<open>
  C9, as stated, fails: a caller's header name with a space in it makes line 119 throw
  after the token has been obtained, and no request is sent at all.
\<close>

theorem refused_header_sends_nothing:
  "fst (getAccessToken revoked_env start_world) = Inr (Some (str ''T1'')) \<and>
   fst (fetchGoogle revoked_env (str ''u'') bad_header_get True start_world) = Inl TypeError \<and>
   filter is_api_call
     (new_events start_world
        (snd (fetchGoogle revoked_env (str ''u'') bad_header_get True start_world))) = []"
  by (simp add: fetchGoogle.simps run_defs)

text \<open>
  C9, amended. Take a call of \<^verbatim>\<open>fetchGoogle\<close> that has obtained its token. When
  \<^verbatim>\<open>Headers\<close> accepts every header of the caller and the \<^verbatim>\<open>Authorization\<close> value made
  of the token, the next event is the request, and it is the caller's with that token
  attached: URL, method and body as given, \<^verbatim>\<open>Authorization\<close> equal to \<^verbatim>\<open>Bearer\<close>, a
  space and the token, and under every other name the caller's values for it, stripped
  and joined. Then either the call ends there with the outcome of that request, or the
  answer was a 401 with \<open>retry\<close> set and, after the refresh, what follows is the call
  with \<open>retry\<close> false, to which the same applies. When \<^verbatim>\<open>Headers\<close> refuses a header
  or the token, the call throws and sends nothing. In every case each request sent has
  the caller's URL, method, body and other headers, and a token attached.
\<close>

theorem fetchGoogle_request_frame:
  assumes run: "fetchGoogle e url os retry w = (r, w')"
    and got: "getAccessToken e w = (Inr tok, w1)"
  shows "(if list_all valid_entry (case opt_headers os of None \<Rightarrow> [] | Some h \<Rightarrow> h) \<and>
             valid_value (normalize_value (str ''Bearer '' @ template tok))
          then \<exists>rq d rs rest.
                 api_endpoint e (length (api_calls w1)) rq = (d, rs) \<and>
                 new_events w1 w' = ApiCall rq rs # rest \<and>
                 carries_token url os tok rq \<and>
                 (rest = [] \<and> r = outcome rs \<or>
                  (\<exists>res. rs = Response res \<and> status res = 401 \<and> retry \<and>
                     (case refreshAccessToken e (after_api_call w1 d rq rs) of
                        (Inl err, w3) \<Rightarrow> r = Inl err \<and> w' = w3
                      | (Inr x, w3) \<Rightarrow> fetchGoogle e url os False w3 = (r, w'))))
          else r = Inl TypeError \<and> w' = w1) \<and>
         (\<forall>rq rs. ApiCall rq rs \<in> set (new_events w w') \<longrightarrow>
            (\<exists>tok'. carries_token url os tok' rq))"
proof -
  let ?ok = "list_all valid_entry (case opt_headers os of None \<Rightarrow> [] | Some h \<Rightarrow> h) \<and>
             valid_value (normalize_value (str ''Bearer '' @ template tok))"
  have all: "\<forall>rq rs. ApiCall rq rs \<in> set (new_events w w') \<longrightarrow>
            (\<exists>tok'. carries_token url os tok' rq)"
  proof -
    from framed_fetch[OF run] obtain new where
      n: "trace w' = trace w @ new"
        "\<forall>rq rs. ApiCall rq rs \<in> set new \<longrightarrow> (\<exists>tok. carries_token url os tok rq)"
      unfolding sends_framed_def by blast
    from n(1) have "new_events w w' = new" by (simp add: new_events_def)
    with n(2) show ?thesis by simp
  qed
  have first: "if ?ok
          then \<exists>rq d rs rest.
                 api_endpoint e (length (api_calls w1)) rq = (d, rs) \<and>
                 new_events w1 w' = ApiCall rq rs # rest \<and>
                 carries_token url os tok rq \<and>
                 (rest = [] \<and> r = outcome rs \<or>
                  (\<exists>res. rs = Response res \<and> status res = 401 \<and> retry \<and>
                     (case refreshAccessToken e (after_api_call w1 d rq rs) of
                        (Inl err, w3) \<Rightarrow> r = Inl err \<and> w' = w3
                      | (Inr x, w3) \<Rightarrow> fetchGoogle e url os False w3 = (r, w'))))
          else r = Inl TypeError \<and> w' = w1"
    using run
  proof (cases rule: fetch_cases)
    case (token_error err)
    with got show ?thesis by simp
  next
    case (build_error tok0 err)
    with got have b: "build_request url os tok = Inl err" "w' = w1" "r = Inl err" by simp_all
    from build_request_Inl[OF b(1)] have nok: "\<not> ?ok" and err: "err = TypeError" by blast+
    show ?thesis unfolding if_not_P[OF nok] using b err by simp
  next
    case (answered tok0 w0 rq d rs)
    with got have b: "build_request url os tok = Inr rq"
      and ep: "api_endpoint e (length (api_calls w1)) rq = (d, rs)"
      and w': "w' = after_api_call w1 d rq rs" by simp_all
    from w' have ne: "new_events w1 w' = ApiCall rq rs # []"
      by (simp add: new_events_def after_api_call_def)
    from build_request_Inr[OF b] have ok: "?ok" and ct: "carries_token url os tok rq" by blast+
    show ?thesis unfolding if_P[OF ok] using ep ne ct answered(6)
      by (intro exI[where x = rq] exI[where x = d] exI[where x = rs]
            exI[where x = "[]"]) simp
  next
    case (refresh_error tok0 w0 rq d res err)
    with got have b: "build_request url os tok = Inr rq"
      and ep: "api_endpoint e (length (api_calls w1)) rq = (d, Response res)"
      and rf: "refreshAccessToken e (after_api_call w1 d rq (Response res)) = (Inl err, w')"
      by simp_all
    from refresh_trace[OF rf] obtain t3 where
      "trace w' = trace (after_api_call w1 d rq (Response res)) @ t3" by auto
    then have ne: "new_events w1 w' = ApiCall rq (Response res) # t3"
      by (simp add: new_events_def after_api_call_def)
    from build_request_Inr[OF b] have ok: "?ok" and ct: "carries_token url os tok rq" by blast+
    have tail: "\<exists>res'. Response res = Response res' \<and> status res' = 401 \<and> retry \<and>
        (case refreshAccessToken e (after_api_call w1 d rq (Response res)) of
           (Inl err, w3) \<Rightarrow> r = Inl err \<and> w' = w3
         | (Inr x, w3) \<Rightarrow> fetchGoogle e url os False w3 = (r, w'))"
      using rf refresh_error(4,5,7) by simp
    show ?thesis unfolding if_P[OF ok] using ep ne ct tail
      by (intro exI[where x = rq] exI[where x = d] exI[where x = "Response res"]
            exI[where x = t3]) simp
  next
    case (retried tok0 w0 rq d res x w3)
    with got have b: "build_request url os tok = Inr rq"
      and ep: "api_endpoint e (length (api_calls w1)) rq = (d, Response res)"
      and rf: "refreshAccessToken e (after_api_call w1 d rq (Response res)) = (Inr x, w3)"
      by simp_all
    from refresh_trace[OF rf] obtain t3 where
      t3: "trace w3 = trace (after_api_call w1 d rq (Response res)) @ t3" by auto
    from framed_fetch[OF retried(7)] obtain t4 where "trace w' = trace w3 @ t4"
      by (auto simp: sends_framed_def)
    with t3 have ne: "new_events w1 w' = ApiCall rq (Response res) # (t3 @ t4)"
      by (simp add: new_events_def after_api_call_def)
    from build_request_Inr[OF b] have ok: "?ok" and ct: "carries_token url os tok rq" by blast+
    have tail: "\<exists>res'. Response res = Response res' \<and> status res' = 401 \<and> retry \<and>
        (case refreshAccessToken e (after_api_call w1 d rq (Response res)) of
           (Inl err, w3) \<Rightarrow> r = Inl err \<and> w' = w3
         | (Inr x, w3) \<Rightarrow> fetchGoogle e url os False w3 = (r, w'))"
      using rf retried(4,5,7) by simp
    show ?thesis unfolding if_P[OF ok] using ep ne ct tail
      by (intro exI[where x = rq] exI[where x = d] exI[where x = "Response res"]
            exI[where x = "t3 @ t4"]) simp
  qed
  from first all show ?thesis by (rule conjI)
qed

text \<open>The same run for a caller with headers of its own.\<close>

lemma revoked_post_run:
  "fetchGoogle revoked_env (str ''u'') json_post True start_world =
     (Inr \<lparr>status = 401, text_body = str ''{}''\<rparr>,
      \<lparr>now = 1200,
       tokenCache = \<lparr>accessToken = Some (str ''T1''), expiresAt = Num 3541000\<rparr>,
       trace =
         [RefreshEntered,
          TokenCall (token_req revoked_env)
            (Response \<lparr>tr_status = 200, tr_text = str ''{}'',
                       tr_json = Some \<lparr>access_token = Some (str ''T1''),
                                       expires_in = JNumber (Num 3600)\<rparr>\<rparr>),
          ApiCall \<lparr>rq_url = str ''u'', rq_method = Some (str ''POST''),
                   rq_headers = [(str ''content-type'', str ''application/json''),
                                 (str ''x-trace'', str ''7, 8''),
                                 (str ''authorization'', str ''Bearer T1'')],
                   rq_body = Some (str ''{}'')\<rparr>
            (Response \<lparr>status = 401, text_body = str ''{}''\<rparr>),
          RefreshEntered,
          ApiCall \<lparr>rq_url = str ''u'', rq_method = Some (str ''POST''),
                   rq_headers = [(str ''content-type'', str ''application/json''),
                                 (str ''x-trace'', str ''7, 8''),
                                 (str ''authorization'', str ''Bearer T1'')],
                   rq_body = Some (str ''{}'')\<rparr>
            (Response \<lparr>status = 401, text_body = str ''{}''\<rparr>)]\<rparr>)"
  by (simp add: fetchGoogle.simps run_defs)

lemma start_token:
  "getAccessToken revoked_env start_world =
     (Inr (Some (str ''T1'')),
      \<lparr>now = 1000,
       tokenCache = \<lparr>accessToken = Some (str ''T1''), expiresAt = Num 3541000\<rparr>,
       trace =
         [RefreshEntered,
          TokenCall (token_req revoked_env)
            (Response \<lparr>tr_status = 200, tr_text = str ''{}'',
                       tr_json = Some \<lparr>access_token = Some (str ''T1''),
                                       expires_in = JNumber (Num 3600)\<rparr>\<rparr>)]\<rparr>)"
  by (simp add: run_defs)

theorem fetchGoogle_request_frame_witness:
  "list_all valid_entry (case opt_headers json_post of None \<Rightarrow> [] | Some h \<Rightarrow> h) \<and>
   valid_value (normalize_value (str ''Bearer '' @ template (Some (str ''T1'')))) \<and>
   (\<exists>rq d rs rest.
      new_events (snd (getAccessToken revoked_env start_world))
        (snd (fetchGoogle revoked_env (str ''u'') json_post True start_world)) =
        ApiCall rq rs # rest \<and>
      api_endpoint revoked_env 0 rq = (d, rs) \<and>
      carries_token (str ''u'') json_post (Some (str ''T1'')) rq \<and>
      hdr_get (rq_headers rq) (str ''Authorization'') = Some (str ''Bearer T1'') \<and>
      hdr_get (rq_headers rq) (str ''X-TRACE'') = Some (str ''7, 8'') \<and>
      hdr_get (rq_headers rq) (str ''Accept'') = None) \<and>
   \<not> list_all valid_entry (case opt_headers bad_header_get of None \<Rightarrow> [] | Some h \<Rightarrow> h) \<and>
   fst (fetchGoogle revoked_env (str ''u'') bad_header_get True start_world) = Inl TypeError"
proof -
  let ?run = "fetchGoogle revoked_env (str ''u'') json_post True start_world"
  let ?w1 = "snd (getAccessToken revoked_env start_world)"
  have run: "?run = (fst ?run, snd ?run)" by simp
  have got: "getAccessToken revoked_env start_world = (Inr (Some (str ''T1'')), ?w1)"
    by (simp add: start_token)
  have v: "list_all valid_entry (case opt_headers json_post of None \<Rightarrow> [] | Some h \<Rightarrow> h) \<and>
     valid_value (normalize_value (str ''Bearer '' @ template (Some (str ''T1''))))"
    by (simp add: json_post_def valid_entry_def valid_name_def valid_value_def tchar_def
          normalize_value_def http_whitespace_def str_def)
  from fetchGoogle_request_frame[OF run got, THEN conjunct1] v
  obtain rq d rs rest where
    ep: "api_endpoint revoked_env (length (api_calls ?w1)) rq = (d, rs)" and
    ne: "new_events ?w1 (snd ?run) = ApiCall rq rs # rest" and
    ct: "carries_token (str ''u'') json_post (Some (str ''T1'')) rq"
    by auto
  have l: "lower (str ''X-TRACE'') \<noteq> lower (str ''Authorization'')"
    "lower (str ''Accept'') \<noteq> lower (str ''Authorization'')"
    by (simp_all add: lower_def lower_unit_def str_def)
  have cv: "caller_value (case opt_headers json_post of None \<Rightarrow> [] | Some h \<Rightarrow> h) (str ''X-TRACE'') =
      Some (str ''7, 8'')"
    "caller_value (case opt_headers json_post of None \<Rightarrow> [] | Some h \<Rightarrow> h) (str ''Accept'') = None"
    by (simp_all add: caller_value_def join_values_def json_post_def lower_def lower_unit_def
          normalize_value_def http_whitespace_def str_def)
  from ct have a: "hdr_get (rq_headers rq) (str ''Authorization'') = Some (str ''Bearer T1'')"
    by (simp add: carries_token_def normalize_value_def http_whitespace_def str_def)
  from ct l cv have b: "hdr_get (rq_headers rq) (str ''X-TRACE'') = Some (str ''7, 8'')"
    "hdr_get (rq_headers rq) (str ''Accept'') = None"
    by (simp_all add: carries_token_def)
  have k: "length (api_calls ?w1) = 0" by (simp add: start_token api_calls_def)
  from ep k have ep0: "api_endpoint revoked_env 0 rq = (d, rs)" by simp
  let ?bad = "fetchGoogle revoked_env (str ''u'') bad_header_get True start_world"
  have runb: "?bad = (fst ?bad, snd ?bad)" by simp
  have nv: "\<not> list_all valid_entry (case opt_headers bad_header_get of None \<Rightarrow> [] | Some h \<Rightarrow> h)"
    by (simp add: bad_header_get_def valid_entry_def valid_name_def tchar_def str_def)
  from fetchGoogle_request_frame[OF runb got, THEN conjunct1] nv
  have e: "fst ?bad = Inl TypeError" by simp
  from v ne ep0 ct a b nv e show ?thesis by blast
qed

section \<open>The network calls of refreshAccessToken\<close>

text \<open>
  C2, as stated, fails: with the credentials configured and a cache that is still valid,
  \<^verbatim>\<open>refreshAccessToken\<close> returns the cached token and calls the token endpoint zero
  times.
\<close>

theorem refresh_cached_skips_endpoint:
  "\<not> credentials_missing revoked_env \<and>
   fst (refreshAccessToken revoked_env cached_world) = Inr (Some (str ''T1'')) \<and>
   filter is_token_call
     (new_events cached_world (snd (refreshAccessToken revoked_env cached_world))) = [] \<and>
   length (filter is_token_call
     (new_events cached_world (snd (refreshAccessToken revoked_env cached_world)))) \<noteq> 1"
  by (simp add: run_defs)

text \<open>
  C2, amended. With the credentials configured, a call of \<^verbatim>\<open>refreshAccessToken\<close> calls
  the token endpoint at most once and never again. When \<open>now < expiresAt\<close> holds for the
  cache (lines 66--69) it calls nothing: it returns the cached token and leaves clock and
  cache as they are, its entry being the only event. Otherwise its events are its entry
  and exactly one call of the token endpoint, whatever the answer is.
\<close>

theorem refresh_network_calls:
  assumes "\<not> credentials_missing e"
  shows "(num_lt (clock (now w)) (expiresAt (tokenCache w)) \<longrightarrow>
            refreshAccessToken e w =
              (Inr (accessToken (tokenCache w)), w\<lparr>trace := trace w @ [RefreshEntered]\<rparr>)) \<and>
         (\<not> num_lt (clock (now w)) (expiresAt (tokenCache w)) \<longrightarrow>
            new_events w (snd (refreshAccessToken e w)) =
              [RefreshEntered,
               TokenCall (token_req e)
                 (snd (token_endpoint e (length (token_calls w)) (token_req e)))])"
proof (cases "num_lt (clock (now w)) (expiresAt (tokenCache w))")
  case True
  with refresh_cached[OF assms True] show ?thesis by simp
next
  case False
  obtain d r where ep: "token_endpoint e (length (token_calls w)) (token_req e) = (d, r)"
    by (cases "token_endpoint e (length (token_calls w)) (token_req e)")
  from refresh_network[OF assms False ep] False ep show ?thesis
    by (simp add: new_events_def after_token_call_def split: fetch_result.splits option.splits)
qed

theorem refresh_network_calls_witness:
  "\<not> credentials_missing revoked_env \<and>
   num_lt (clock (now cached_world)) (expiresAt (tokenCache cached_world)) \<and>
   refreshAccessToken revoked_env cached_world =
     (Inr (Some (str ''T1'')), cached_world\<lparr>trace := [RefreshEntered]\<rparr>) \<and>
   \<not> num_lt (clock (now start_world)) (expiresAt (tokenCache start_world)) \<and>
   new_events start_world (snd (refreshAccessToken revoked_env start_world)) =
     [RefreshEntered,
      TokenCall (token_req revoked_env)
        (Response \<lparr>tr_status = 200, tr_text = str ''{}'',
                   tr_json = Some \<lparr>access_token = Some (str ''T1''),
                                   expires_in = JNumber (Num 3600)\<rparr>\<rparr>)]"
proof -
  have c: "\<not> credentials_missing revoked_env" by (simp add: run_defs)
  have v: "num_lt (clock (now cached_world)) (expiresAt (tokenCache cached_world))"
    by (simp add: cached_world_def world_at_def clock_def)
  have s: "\<not> num_lt (clock (now start_world)) (expiresAt (tokenCache start_world))"
    by (simp add: start_world_simps initial_cache_def clock_def)
  from refresh_network_calls[OF c, of cached_world, THEN conjunct1, rule_format, OF v]
  have a: "refreshAccessToken revoked_env cached_world =
     (Inr (Some (str ''T1'')), cached_world\<lparr>trace := [RefreshEntered]\<rparr>)"
    by (simp add: cached_world_def world_at_def)
  from refresh_network_calls[OF c, of start_world, THEN conjunct2, rule_format, OF s]
  have b: "new_events start_world (snd (refreshAccessToken revoked_env start_world)) =
     [RefreshEntered,
      TokenCall (token_req revoked_env)
        (Response \<lparr>tr_status = 200, tr_text = str ''{}'',
                   tr_json = Some \<lparr>access_token = Some (str ''T1''),
                                   expires_in = JNumber (Num 3600)\<rparr>\<rparr>)]"
    by (simp add: start_world_simps token_calls_def revoked_env_def demo_env_def
          rotating_tokens_def token_reply_def)
  from c v a s b show ?thesis by blast
qed

section \<open>Missing credentials\<close>

text \<open>
  C7. When one of the three credentials is absent, \<^verbatim>\<open>refreshAccessToken\<close> fails with
  the configuration error and calls no endpoint: entering the function is the only event.
  The check is made by every call: however many calls came before, the next one fails in
  the same way and the token endpoint has still not been called.
\<close>

theorem refresh_without_credentials:
  assumes "GOOGLE_CLIENT_ID e = None \<or> GOOGLE_CLIENT_SECRET e = None \<or> GOOGLE_REFRESH_TOKEN e = None"
  shows "fst (refreshAccessToken e w) = Inl ConfigurationError \<and>
         new_events w (snd (refreshAccessToken e w)) = [RefreshEntered] \<and>
         token_calls (snd (refreshAccessToken e w)) = token_calls w \<and>
         (\<forall>n. fst (refreshAccessToken e (((\<lambda>v. snd (refreshAccessToken e v)) ^^ n) w)) =
                 Inl ConfigurationError \<and>
              token_calls (((\<lambda>v. snd (refreshAccessToken e v)) ^^ n) w) = token_calls w)"
proof -
  from assms have m: "credentials_missing e"
    by (auto simp: credentials_missing_def)
  show ?thesis
    unfolding refresh_n_missing[OF m]
    by (simp add: refresh_missing[OF m] new_events_def token_calls_def)
qed

theorem refresh_without_credentials_witness:
  "GOOGLE_REFRESH_TOKEN no_refresh_token_env = None \<and>
   fst (refreshAccessToken no_refresh_token_env start_world) = Inl ConfigurationError \<and>
   new_events start_world (snd (refreshAccessToken no_refresh_token_env start_world)) = [RefreshEntered] \<and>
   fst (refreshAccessToken no_refresh_token_env
          (snd (refreshAccessToken no_refresh_token_env start_world))) = Inl ConfigurationError \<and>
   token_calls (snd (refreshAccessToken no_refresh_token_env
          (snd (refreshAccessToken no_refresh_token_env start_world)))) = []"
proof -
  have h: "GOOGLE_REFRESH_TOKEN no_refresh_token_env = None"
    by (simp add: no_refresh_token_env_def)
  then have h': "GOOGLE_CLIENT_ID no_refresh_token_env = None \<or>
     GOOGLE_CLIENT_SECRET no_refresh_token_env = None \<or> GOOGLE_REFRESH_TOKEN no_refresh_token_env = None"
    by simp
  note th = refresh_without_credentials[OF h', of start_world]
  note th2 = refresh_without_credentials[OF h', of "snd (refreshAccessToken no_refresh_token_env start_world)"]
  from th th2 h show ?thesis
    by (simp add: token_calls_def start_world_simps)
qed

section \<open>Reading the cache\<close>

text \<open>
  C4. \<^verbatim>\<open>getAccessToken\<close> returns the cached token, and leaves the state as it is (no
  event, so no refresh and no network call), exactly when a token is cached and
  \<open>now < expiresAt\<close>; otherwise it is \<^verbatim>\<open>refreshAccessToken\<close> that runs. A sequence of
  calls all made before \<open>expiresAt\<close> returns the same token every time and changes nothing
  but the clock.
\<close>

theorem getAccessToken_cache_read:
  "(truthy_str (accessToken (tokenCache w)) \<and> num_lt (clock (now w)) (expiresAt (tokenCache w)) \<longrightarrow>
      getAccessToken e w = (Inr (accessToken (tokenCache w)), w)) \<and>
   (\<not> (truthy_str (accessToken (tokenCache w)) \<and> num_lt (clock (now w)) (expiresAt (tokenCache w))) \<longrightarrow>
      getAccessToken e w = refreshAccessToken e w \<and>
      hd (new_events w (snd (getAccessToken e w))) = RefreshEntered) \<and>
   (truthy_str (accessToken (tokenCache w)) \<and>
    num_lt (clock (now w + int (sum_list dts))) (expiresAt (tokenCache w)) \<longrightarrow>
      get_seq e dts w =
        (replicate (length dts) (Inr (accessToken (tokenCache w))),
         w\<lparr>now := now w + int (sum_list dts)\<rparr>))"
proof -
  have "hd (new_events w (snd (refreshAccessToken e w))) = RefreshEntered"
    using refresh_trace[of e w "fst (refreshAccessToken e w)" "snd (refreshAccessToken e w)"]
    by (auto simp: new_events_def)
  then show ?thesis
    by (auto simp: get_seq_cached getAccessToken_def)
qed

theorem getAccessToken_cache_read_witness:
  "getAccessToken revoked_env cached_world = (Inr (Some (str ''T1'')), cached_world) \<and>
   get_seq revoked_env [10, 20, 30] cached_world =
     ([Inr (Some (str ''T1'')), Inr (Some (str ''T1'')), Inr (Some (str ''T1''))],
      cached_world\<lparr>now := 1160\<rparr>) \<and>
   getAccessToken revoked_env start_world = refreshAccessToken revoked_env start_world \<and>
   hd (new_events start_world (snd (getAccessToken revoked_env start_world))) = RefreshEntered"
proof -
  note a = getAccessToken_cache_read[of cached_world revoked_env "[10, 20, 30]"]
  note b = getAccessToken_cache_read[of start_world revoked_env "[]"]
  have c: "truthy_str (accessToken (tokenCache cached_world))"
    "num_lt (clock (now cached_world)) (expiresAt (tokenCache cached_world))"
    "num_lt (clock (now cached_world + int (sum_list [10, 20, 30]))) (expiresAt (tokenCache cached_world))"
    "accessToken (tokenCache cached_world) = Some (str ''T1'')" "now cached_world = 1100"
    by (simp_all add: cached_world_def world_at_def clock_def str_def)
  have s: "\<not> (truthy_str (accessToken (tokenCache start_world)) \<and>
              num_lt (clock (now start_world)) (expiresAt (tokenCache start_world)))"
    by (simp add: start_world_simps initial_cache_def)
  from a c have "getAccessToken revoked_env cached_world = (Inr (Some (str ''T1'')), cached_world)"
    by simp
  moreover from a c have "get_seq revoked_env [10, 20, 30] cached_world =
     ([Inr (Some (str ''T1'')), Inr (Some (str ''T1'')), Inr (Some (str ''T1''))],
      cached_world\<lparr>now := 1160\<rparr>)"
    by (simp add: numeral_3_eq_3)
  moreover from b s have "getAccessToken revoked_env start_world = refreshAccessToken revoked_env start_world \<and>
   hd (new_events start_world (snd (getAccessToken revoked_env start_world))) = RefreshEntered"
    by blast
  ultimately show ?thesis by blast
qed

section \<open>The expiry that a refresh stores\<close>

text \<open>A process with the empty cache at \<open>now = t\<close> whose token endpoint answers \<^verbatim>\<open>T1\<close>
  at once with the \<^verbatim>\<open>expires_in\<close> \<open>v\<close>.\<close>

lemma lifetime_hyps:
  assumes "0 \<le> t"
  shows "\<not> credentials_missing (lifetime_env v)"
    and "\<not> num_lt (clock (now (world_at t initial_cache)))
             (expiresAt (tokenCache (world_at t initial_cache)))"
    and "token_endpoint (lifetime_env v) (length (token_calls (world_at t initial_cache)))
           (token_req (lifetime_env v)) =
         (0, Response \<lparr>tr_status = 200, tr_text = str ''{}'',
                       tr_json = Some \<lparr>access_token = Some (str ''T1''), expires_in = v\<rparr>\<rparr>)"
    and "ok (tr_status \<lparr>tr_status = 200, tr_text = str ''{}'',
                   tr_json = Some \<lparr>access_token = Some (str ''T1''), expires_in = v\<rparr>\<rparr>)"
    and "tr_json \<lparr>tr_status = 200, tr_text = str ''{}'',
                   tr_json = Some \<lparr>access_token = Some (str ''T1''), expires_in = v\<rparr>\<rparr> =
         Some \<lparr>access_token = Some (str ''T1''), expires_in = v\<rparr>"
    and "truthy_str (access_token \<lparr>access_token = Some (str ''T1''), expires_in = v\<rparr>)"
  using assms
  by (simp_all add: lifetime_env_def demo_env_def world_at_def initial_cache_def clock_def
        credentials_missing_def token_reply_def ok_def token_calls_def str_def)

lemma lifetime_run:
  assumes "0 \<le> t"
  shows "refreshAccessToken (lifetime_env v) (world_at t initial_cache) =
     (Inr (Some (str ''T1'')),
      \<lparr>now = t,
       tokenCache = \<lparr>accessToken = Some (str ''T1''), expiresAt = expiry (lifetime_env v) t v\<rparr>,
       trace = [RefreshEntered,
                TokenCall (token_req (lifetime_env v))
                  (Response \<lparr>tr_status = 200, tr_text = str ''{}'',
                             tr_json = Some \<lparr>access_token = Some (str ''T1''),
                                             expires_in = v\<rparr>\<rparr>)]\<rparr>)"
  using refresh_success[OF lifetime_hyps[OF assms], of v]
  by (simp add: after_token_call_def world_at_def)

text \<open>Two roundings of line 103 outside the whole numbers below \<open>2^53\<close>: a half, which
  is a double, and an even number above \<open>2^53\<close>, which is one too.\<close>

lemma double_of_half: "double_of (7079 / 2) = Num (7079 / 2)"
  by code_simp

lemma double_of_even_above_2_53: "double_of 9999999999941000 = Num 9999999999941000"
  by code_simp

text \<open>
  C5, as stated, fails for a token response that carries \<^verbatim>\<open>expires_in = 0\<close>: received
  at \<open>T = 0\<close>, the stored expiry is \<open>3540000\<close> milliseconds and not
  \<open>(0 - 60) * 1000\<close>, since line 96 takes 3600 for every falsy value.
\<close>

theorem zero_expires_in_counterexample:
  "fst (refreshAccessToken (lifetime_env (JNumber (Num 0))) zero_world) = Inr (Some (str ''T1'')) \<and>
   now (snd (refreshAccessToken (lifetime_env (JNumber (Num 0))) zero_world)) = 0 \<and>
   expiresAt (tokenCache (snd (refreshAccessToken (lifetime_env (JNumber (Num 0))) zero_world))) =
     Num 3540000 \<and>
   num_add (clock 0) (num_mul (num_sub (Num 0) (Num 60)) (Num 1000)) = Num (- 60000) \<and>
   expiresAt (tokenCache (snd (refreshAccessToken (lifetime_env (JNumber (Num 0))) zero_world))) \<noteq>
     Num (- 60000)"
  by (simp add: zero_world_def lifetime_run expiry_falsy clock_def num_sub_def double_of_Ints)

text \<open>
  C5, amended. When a refresh gets a token from the token endpoint at time \<open>T\<close> (the clock
  when the body has been read) and \<^verbatim>\<open>expires_in\<close> is a number \<open>x\<close> other than zero,
  or is absent and \<open>x\<close> is 3600, the cache holds that token with
  \<open>expiresAt = T + (x - 60) * 1000\<close> as line 103 computes it, in doubles. The result is
  exactly \<open>T + (n - 60) * 1000\<close> milliseconds when \<open>x\<close> is a whole number \<open>n\<close> and
  \<open>(n - 60) * 1000\<close> and \<open>T + (n - 60) * 1000\<close> are below \<open>2^53\<close> in magnitude. Then,
  before that instant \<^verbatim>\<open>getAccessToken\<close> returns the token from the cache; from that
  instant on it refreshes, with a call of the token endpoint.
\<close>

theorem refresh_sets_expiry:
  assumes "\<not> credentials_missing e" "\<not> num_lt (clock (now w)) (expiresAt (tokenCache w))"
    and "token_endpoint e (length (token_calls w)) (token_req e) = (d, Response res)"
    and "ok (tr_status res)" "tr_json res = Some j" "truthy_str (access_token j)"
    and "expires_in j = JNumber x \<and> truthy (JNumber x) \<or> expires_in j = JUndefined \<and> x = Num 3600"
    and "w' = snd (refreshAccessToken e w)"
  shows "fst (refreshAccessToken e w) = Inr (access_token j) \<and>
         now w' = now w + int d \<and>
         tokenCache w' =
           \<lparr>accessToken = access_token j,
            expiresAt = num_add (Num (of_int (now w'))) (num_mul (num_sub x (Num 60)) (Num 1000))\<rparr> \<and>
         (\<forall>n. x = Num (of_int n) \<and> \<bar>(n - 60) * 1000\<bar> < 2 ^ 53 \<and>
               \<bar>now w' + (n - 60) * 1000\<bar> < 2 ^ 53 \<longrightarrow>
            expiresAt (tokenCache w') = Num (of_int (now w' + (n - 60) * 1000)) \<and>
            (\<forall>t. t < now w' + (n - 60) * 1000 \<longrightarrow>
               getAccessToken e (w'\<lparr>now := t\<rparr>) = (Inr (access_token j), w'\<lparr>now := t\<rparr>)) \<and>
            (\<forall>t. now w' + (n - 60) * 1000 \<le> t \<longrightarrow>
               getAccessToken e (w'\<lparr>now := t\<rparr>) = refreshAccessToken e (w'\<lparr>now := t\<rparr>) \<and>
               length (filter is_token_call
                 (new_events (w'\<lparr>now := t\<rparr>) (snd (getAccessToken e (w'\<lparr>now := t\<rparr>))))) = 1))"
proof -
  have ex: "expiry e (now w + int d) (expires_in j) =
      num_add (clock (now w + int d)) (num_mul (num_sub x (Num 60)) (Num 1000))"
    using assms(7) by (auto simp: expiry_truthy_number expiry_def js_or_def)
  note rs = refresh_success[OF assms(1-6)]
  have w': "w' = (after_token_call e w d (Response res))\<lparr>tokenCache :=
         \<lparr>accessToken = access_token j,
          expiresAt = num_add (clock (now w + int d)) (num_mul (num_sub x (Num 60)) (Num 1000))\<rparr>\<rparr>"
    using rs ex assms(8) by simp
  have nw: "now w' = now w + int d" by (simp add: w' after_token_call_def)
  have tc: "tokenCache w' =
      \<lparr>accessToken = access_token j,
       expiresAt = num_add (Num (of_int (now w'))) (num_mul (num_sub x (Num 60)) (Num 1000))\<rparr>"
    by (simp add: w' after_token_call_def clock_def)
  from rs have f: "fst (refreshAccessToken e w) = Inr (access_token j)" by simp
  have whole: "expiresAt (tokenCache w') = Num (of_int (now w' + (n - 60) * 1000)) \<and>
            (\<forall>t. t < now w' + (n - 60) * 1000 \<longrightarrow>
               getAccessToken e (w'\<lparr>now := t\<rparr>) = (Inr (access_token j), w'\<lparr>now := t\<rparr>)) \<and>
            (\<forall>t. now w' + (n - 60) * 1000 \<le> t \<longrightarrow>
               getAccessToken e (w'\<lparr>now := t\<rparr>) = refreshAccessToken e (w'\<lparr>now := t\<rparr>) \<and>
               length (filter is_token_call
                 (new_events (w'\<lparr>now := t\<rparr>) (snd (getAccessToken e (w'\<lparr>now := t\<rparr>))))) = 1)"
    if h: "x = Num (of_int n) \<and> \<bar>(n - 60) * 1000\<bar> < 2 ^ 53 \<and>
           \<bar>now w' + (n - 60) * 1000\<bar> < 2 ^ 53" for n
  proof -
    from h seconds_exact[of n "now w'"]
    have ea: "expiresAt (tokenCache w') = Num (of_int (now w' + (n - 60) * 1000))"
      by (simp add: tc clock_def)
    have early: "getAccessToken e (w'\<lparr>now := t\<rparr>) = (Inr (access_token j), w'\<lparr>now := t\<rparr>)"
      if "t < now w' + (n - 60) * 1000" for t
      using that assms(6) ea tc by (simp add: getAccessToken_def clock_def)
    have late: "getAccessToken e (w'\<lparr>now := t\<rparr>) = refreshAccessToken e (w'\<lparr>now := t\<rparr>) \<and>
              length (filter is_token_call
                (new_events (w'\<lparr>now := t\<rparr>) (snd (getAccessToken e (w'\<lparr>now := t\<rparr>))))) = 1"
      if "now w' + (n - 60) * 1000 \<le> t" for t
    proof (rule get_stale[OF assms(1)])
      show "\<not> num_lt (clock (now (w'\<lparr>now := t\<rparr>))) (expiresAt (tokenCache (w'\<lparr>now := t\<rparr>)))"
        using that ea by (simp add: clock_def)
    qed
    from ea early late show ?thesis by blast
  qed
  from f nw tc whole show ?thesis by blast
qed

theorem refresh_sets_expiry_witness:
  "expiresAt (tokenCache (snd (refreshAccessToken (lifetime_env (JNumber (Num 120))) zero_world))) =
     Num 60000 \<and>
   getAccessToken (lifetime_env (JNumber (Num 120)))
     (snd (refreshAccessToken (lifetime_env (JNumber (Num 120))) zero_world)\<lparr>now := 50000\<rparr>) =
     (Inr (Some (str ''T1'')),
      snd (refreshAccessToken (lifetime_env (JNumber (Num 120))) zero_world)\<lparr>now := 50000\<rparr>) \<and>
   length (filter is_token_call
     (new_events
        (snd (refreshAccessToken (lifetime_env (JNumber (Num 120))) zero_world)\<lparr>now := 61000\<rparr>)
        (snd (getAccessToken (lifetime_env (JNumber (Num 120)))
           (snd (refreshAccessToken (lifetime_env (JNumber (Num 120))) zero_world)\<lparr>now := 61000\<rparr>))))) = 1 \<and>
   expiresAt (tokenCache (snd (refreshAccessToken (lifetime_env (JNumber (Num 3600))) zero_world))) =
     Num 3540000 \<and>
   expiresAt (tokenCache (snd (refreshAccessToken (lifetime_env JUndefined) zero_world))) =
     Num 3540000 \<and>
   expiresAt (tokenCache (snd (refreshAccessToken (lifetime_env (JNumber (Num (7199 / 2)))) zero_world))) =
     Num 3539500 \<and>
   expiresAt (tokenCache (snd (refreshAccessToken (lifetime_env (JNumber (Num 10000000000001)))
     (world_at 1 initial_cache)))) = Num 9999999999941000"
proof -
  let ?e = "lifetime_env (JNumber (Num 120))"
  let ?w' = "snd (refreshAccessToken ?e zero_world)"
  have z: "zero_world = world_at 0 initial_cache" "now (world_at 0 initial_cache) = 0"
    "now (world_at 1 initial_cache) = 1"
    by (simp_all add: zero_world_def world_at_def)
  have p: "(0::int) \<le> 0" "(0::int) \<le> 1" by simp_all
  have n: "expires_in \<lparr>access_token = Some (str ''T1''), expires_in = JNumber (Num 120)\<rparr> =
        JNumber (Num 120) \<and> truthy (JNumber (Num 120)) \<or>
     expires_in \<lparr>access_token = Some (str ''T1''), expires_in = JNumber (Num 120)\<rparr> = JUndefined \<and>
        Num 120 = Num 3600"
    by simp
  note th = refresh_sets_expiry[OF lifetime_hyps[OF p(1)] n refl, folded z(1)]
  from th z have nw: "now ?w' = 0" by simp
  have b: "Num 120 = Num (of_int 120) \<and> \<bar>((120::int) - 60) * 1000\<bar> < 2 ^ 53 \<and>
           \<bar>now ?w' + (120 - 60) * 1000\<bar> < 2 ^ 53"
    using nw by simp
  note wh = th[THEN conjunct2, THEN conjunct2, THEN conjunct2, rule_format, OF b]
  from wh nw have a: "expiresAt (tokenCache ?w') = Num 60000" by simp
  have lt: "50000 < now ?w' + (120 - 60) * 1000" using nw by simp
  from wh[THEN conjunct2, THEN conjunct1, rule_format, OF lt]
  have c: "getAccessToken ?e (?w'\<lparr>now := 50000\<rparr>) = (Inr (Some (str ''T1'')), ?w'\<lparr>now := 50000\<rparr>)"
    by simp
  have le: "now ?w' + (120 - 60) * 1000 \<le> 61000" using nw by simp
  note d = wh[THEN conjunct2, THEN conjunct2, rule_format, OF le, THEN conjunct2]
  have n2: "expires_in \<lparr>access_token = Some (str ''T1''), expires_in = JNumber (Num 3600)\<rparr> =
        JNumber (Num 3600) \<and> truthy (JNumber (Num 3600)) \<or>
     expires_in \<lparr>access_token = Some (str ''T1''), expires_in = JNumber (Num 3600)\<rparr> = JUndefined \<and>
        Num 3600 = Num 3600"
    by simp
  from refresh_sets_expiry[OF lifetime_hyps[OF p(1)] n2 refl, folded z(1)] z
  have e: "expiresAt (tokenCache (snd (refreshAccessToken (lifetime_env (JNumber (Num 3600))) zero_world))) =
     Num 3540000"
    by (simp add: num_sub_def double_of_Ints)
  have n3: "expires_in \<lparr>access_token = Some (str ''T1''), expires_in = JUndefined\<rparr> =
        JNumber (Num 3600) \<and> truthy (JNumber (Num 3600)) \<or>
     expires_in \<lparr>access_token = Some (str ''T1''), expires_in = JUndefined\<rparr> = JUndefined \<and>
        Num 3600 = Num 3600"
    by simp
  from refresh_sets_expiry[OF lifetime_hyps[OF p(1)] n3 refl, folded z(1)] z
  have f: "expiresAt (tokenCache (snd (refreshAccessToken (lifetime_env JUndefined) zero_world))) =
     Num 3540000"
    by (simp add: num_sub_def double_of_Ints)
  have n4: "expires_in \<lparr>access_token = Some (str ''T1''), expires_in = JNumber (Num (7199 / 2))\<rparr> =
        JNumber (Num (7199 / 2)) \<and> truthy (JNumber (Num (7199 / 2))) \<or>
     expires_in \<lparr>access_token = Some (str ''T1''), expires_in = JNumber (Num (7199 / 2))\<rparr> = JUndefined \<and>
        Num (7199 / 2) = Num 3600"
    by simp
  from refresh_sets_expiry[OF lifetime_hyps[OF p(1)] n4 refl, folded z(1)] z
  have g: "expiresAt (tokenCache (snd (refreshAccessToken (lifetime_env (JNumber (Num (7199 / 2)))) zero_world))) =
     Num 3539500"
    by (simp add: num_sub_def double_of_half double_of_Ints)
  have n5: "expires_in \<lparr>access_token = Some (str ''T1''), expires_in = JNumber (Num 10000000000001)\<rparr> =
        JNumber (Num 10000000000001) \<and> truthy (JNumber (Num 10000000000001)) \<or>
     expires_in \<lparr>access_token = Some (str ''T1''), expires_in = JNumber (Num 10000000000001)\<rparr> = JUndefined \<and>
        Num 10000000000001 = Num 3600"
    by simp
  from refresh_sets_expiry[OF lifetime_hyps[OF p(2)] n5 refl] z
  have h: "expiresAt (tokenCache (snd (refreshAccessToken (lifetime_env (JNumber (Num 10000000000001)))
     (world_at 1 initial_cache)))) = Num 9999999999941000"
    by (simp add: num_sub_def double_of_Ints double_of_even_above_2_53 double_of_odd_above_2_53)
  from a c d e f g h show ?thesis by blast
qed

text \<open>
  C10. When \<^verbatim>\<open>expires_in\<close> is falsy (0, \<^verbatim>\<open>null\<close>, the empty string, or any other
  falsy value) the stored expiry is the clock plus \<open>3540000\<close> milliseconds, as for 3600:
  exactly \<open>T + 3540000\<close> for a clock below \<open>2^53 - 3540000\<close>, as every clock is. When it
  is a string that is not empty and that \<^verbatim>\<open>Number\<close> reads as \<^verbatim>\<open>NaN\<close>, the stored
  expiry is \<^verbatim>\<open>NaN\<close>, and from then on \<^verbatim>\<open>getAccessToken\<close> at any time refreshes, with
  a call of the token endpoint.
\<close>

theorem falsy_expires_in_is_default:
  assumes "\<not> credentials_missing e" "\<not> num_lt (clock (now w)) (expiresAt (tokenCache w))"
    and "token_endpoint e (length (token_calls w)) (token_req e) = (d, Response res)"
    and "ok (tr_status res)" "tr_json res = Some j" "truthy_str (access_token j)"
    and "w' = snd (refreshAccessToken e w)"
  shows "(expires_in j = JNumber (Num 0) \<or> expires_in j = JNull \<or> expires_in j = JString [] \<or>
          \<not> truthy (expires_in j) \<longrightarrow>
            fst (refreshAccessToken e w) = Inr (access_token j) \<and>
            now w' = now w + int d \<and>
            expiresAt (tokenCache w') = num_add (Num (of_int (now w'))) (Num 3540000) \<and>
            (\<bar>now w' + 3540000\<bar> < 2 ^ 53 \<longrightarrow>
               expiresAt (tokenCache w') = Num (of_int (now w' + 3540000)))) \<and>
         (\<forall>s. expires_in j = JString s \<and> s \<noteq> [] \<and> str2num e s = NaN \<longrightarrow>
            fst (refreshAccessToken e w) = Inr (access_token j) \<and>
            expiresAt (tokenCache w') = NaN \<and>
            (\<forall>t. getAccessToken e (w'\<lparr>now := t\<rparr>) = refreshAccessToken e (w'\<lparr>now := t\<rparr>) \<and>
                 length (filter is_token_call
                   (new_events (w'\<lparr>now := t\<rparr>) (snd (getAccessToken e (w'\<lparr>now := t\<rparr>))))) = 1))"
proof -
  note rs = refresh_success[OF assms(1-6)]
  have w': "w' = (after_token_call e w d (Response res))\<lparr>tokenCache :=
         \<lparr>accessToken = access_token j, expiresAt = expiry e (now w + int d) (expires_in j)\<rparr>\<rparr>"
    using rs assms(7) by simp
  have nw: "now w' = now w + int d" by (simp add: w' after_token_call_def)
  have ex: "expiresAt (tokenCache w') = expiry e (now w') (expires_in j)"
    by (simp add: w' after_token_call_def)
  from rs have f: "fst (refreshAccessToken e w) = Inr (access_token j)" by simp
  have p1: "fst (refreshAccessToken e w) = Inr (access_token j) \<and>
            now w' = now w + int d \<and>
            expiresAt (tokenCache w') = num_add (Num (of_int (now w'))) (Num 3540000) \<and>
            (\<bar>now w' + 3540000\<bar> < 2 ^ 53 \<longrightarrow>
               expiresAt (tokenCache w') = Num (of_int (now w' + 3540000)))"
    if h: "expires_in j = JNumber (Num 0) \<or> expires_in j = JNull \<or> expires_in j = JString [] \<or>
          \<not> truthy (expires_in j)"
  proof -
    from h have "\<not> truthy (expires_in j)" by auto
    with ex have a: "expiresAt (tokenCache w') = num_add (Num (of_int (now w'))) (Num 3540000)"
      by (simp add: expiry_falsy clock_def)
    have "\<bar>now w' + 3540000\<bar> < 2 ^ 53 \<longrightarrow>
               expiresAt (tokenCache w') = Num (of_int (now w' + 3540000))"
      using a default_exact[of "now w'"] by (simp add: clock_def)
    with f nw a show ?thesis by blast
  qed
  have p2: "fst (refreshAccessToken e w) = Inr (access_token j) \<and>
            expiresAt (tokenCache w') = NaN \<and>
            (\<forall>t. getAccessToken e (w'\<lparr>now := t\<rparr>) = refreshAccessToken e (w'\<lparr>now := t\<rparr>) \<and>
                 length (filter is_token_call
                   (new_events (w'\<lparr>now := t\<rparr>) (snd (getAccessToken e (w'\<lparr>now := t\<rparr>))))) = 1)"
    if s: "expires_in j = JString s \<and> s \<noteq> [] \<and> str2num e s = NaN" for s
  proof -
    from s ex have nan: "expiresAt (tokenCache w') = NaN" by (simp add: expiry_nan)
    have "getAccessToken e (w'\<lparr>now := t\<rparr>) = refreshAccessToken e (w'\<lparr>now := t\<rparr>) \<and>
          length (filter is_token_call
            (new_events (w'\<lparr>now := t\<rparr>) (snd (getAccessToken e (w'\<lparr>now := t\<rparr>))))) = 1" for t
    proof (rule get_stale[OF assms(1)])
      show "\<not> num_lt (clock (now (w'\<lparr>now := t\<rparr>))) (expiresAt (tokenCache (w'\<lparr>now := t\<rparr>)))"
        by (simp add: nan clock_def)
    qed
    with f nan show ?thesis by blast
  qed
  from p1 p2 show ?thesis by blast
qed

theorem falsy_expires_in_is_default_witness:
  "expiresAt (tokenCache (snd (refreshAccessToken (lifetime_env (JNumber (Num 0))) zero_world))) =
     Num 3540000 \<and>
   expiresAt (tokenCache (snd (refreshAccessToken (lifetime_env JNull) zero_world))) = Num 3540000 \<and>
   expiresAt (tokenCache (snd (refreshAccessToken (lifetime_env (JString [])) zero_world))) =
     Num 3540000 \<and>
   str2num (lifetime_env (JString (str ''soon''))) (str ''soon'') = NaN \<and>
   expiresAt (tokenCache (snd (refreshAccessToken (lifetime_env (JString (str ''soon''))) zero_world))) = NaN \<and>
   length (filter is_token_call
     (new_events
        (snd (refreshAccessToken (lifetime_env (JString (str ''soon''))) zero_world)\<lparr>now := 1\<rparr>)
        (snd (getAccessToken (lifetime_env (JString (str ''soon'')))
           (snd (refreshAccessToken (lifetime_env (JString (str ''soon''))) zero_world)\<lparr>now := 1\<rparr>))))) = 1"
proof -
  have z: "zero_world = world_at 0 initial_cache" "now (world_at 0 initial_cache) = 0"
    by (simp_all add: zero_world_def world_at_def)
  have p: "(0::int) \<le> 0" by simp
  have a: "expiresAt (tokenCache (snd (refreshAccessToken (lifetime_env v) zero_world))) = Num 3540000"
    if "v = JNumber (Num 0) \<or> v = JNull \<or> v = JString []" for v
  proof -
    from that have "expires_in \<lparr>access_token = Some (str ''T1''), expires_in = v\<rparr> = JNumber (Num 0) \<or>
       expires_in \<lparr>access_token = Some (str ''T1''), expires_in = v\<rparr> = JNull \<or>
       expires_in \<lparr>access_token = Some (str ''T1''), expires_in = v\<rparr> = JString [] \<or>
       \<not> truthy (expires_in \<lparr>access_token = Some (str ''T1''), expires_in = v\<rparr>)"
      by auto
    note t = falsy_expires_in_is_default[OF lifetime_hyps[OF p] refl, of v, THEN conjunct1,
               rule_format, OF this, folded z(1)]
    from t z show ?thesis by (simp add: double_of_Ints)
  qed
  have n: "str2num (lifetime_env (JString (str ''soon''))) (str ''soon'') = NaN"
    by (simp add: lifetime_env_def demo_env_def StringToNumber_def str_def js_trim_def
          js_whitespace_def unsigned_decimal_def dec_digit_def)
  then have h: "expires_in \<lparr>access_token = Some (str ''T1''), expires_in = JString (str ''soon'')\<rparr> =
       JString (str ''soon'') \<and>
     str ''soon'' \<noteq> [] \<and> str2num (lifetime_env (JString (str ''soon''))) (str ''soon'') = NaN"
    by (simp add: str_def)
  note b = falsy_expires_in_is_default[OF lifetime_hyps[OF p] refl, of "JString (str ''soon'')",
              THEN conjunct2, rule_format, OF h, folded z(1)]
  from b have b1: "expiresAt (tokenCache (snd (refreshAccessToken (lifetime_env (JString (str ''soon''))) zero_world))) = NaN"
    by blast
  from b have b2: "length (filter is_token_call
     (new_events
        (snd (refreshAccessToken (lifetime_env (JString (str ''soon''))) zero_world)\<lparr>now := 1\<rparr>)
        (snd (getAccessToken (lifetime_env (JString (str ''soon'')))
           (snd (refreshAccessToken (lifetime_env (JString (str ''soon''))) zero_world)\<lparr>now := 1\<rparr>))))) = 1"
    by blast
  from a[of "JNumber (Num 0)"] a[of JNull] a[of "JString []"] n b1 b2 show ?thesis by simp
qed

section \<open>Writes to the cache\<close>

text \<open>
  C8. The cache starts with no token and an expiry that no clock reading from 0 on is
  before. A call of \<^verbatim>\<open>refreshAccessToken\<close> that fails leaves the cache as it was. One
  that succeeds leaves it as it was or replaces both fields at once, with the token it
  returns and the expiry computed from the same response, and this after a success answer
  of the token endpoint. \<^verbatim>\<open>getAccessToken\<close> and \<^verbatim>\<open>fetchGoogle\<close> change the cache only
  through such a refresh.
\<close>

theorem cache_written_only_by_successful_refresh:
  "accessToken initial_cache = None \<and>
   (\<forall>t\<ge>0. \<not> num_lt (clock t) (expiresAt initial_cache)) \<and>
   (\<forall>err w'. refreshAccessToken e w = (Inl err, w') \<longrightarrow> tokenCache w' = tokenCache w) \<and>
   (\<forall>tok w'. refreshAccessToken e w = (Inr tok, w') \<longrightarrow>
      tokenCache w' = tokenCache w \<or>
      (\<exists>res j. new_events w w' = [RefreshEntered, TokenCall (token_req e) (Response res)] \<and>
         ok (tr_status res) \<and> tr_json res = Some j \<and> tok = access_token j \<and> truthy_str tok \<and>
         tokenCache w' = \<lparr>accessToken = tok, expiresAt = expiry e (now w') (expires_in j)\<rparr>)) \<and>
   (\<forall>r w'. getAccessToken e w = (r, w') \<and> tokenCache w' \<noteq> tokenCache w \<longrightarrow>
      (\<exists>res. TokenCall (token_req e) (Response res) \<in> set (new_events w w') \<and> ok (tr_status res))) \<and>
   (\<forall>r w'. fetchGoogle e url os retry w = (r, w') \<and> tokenCache w' \<noteq> tokenCache w \<longrightarrow>
      (\<exists>res. TokenCall (token_req e) (Response res) \<in> set (new_events w w') \<and> ok (tr_status res)))"
proof -
  have a: "accessToken initial_cache = None \<and> (\<forall>t\<ge>0. \<not> num_lt (clock t) (expiresAt initial_cache))"
    by (simp add: initial_cache_def clock_def)
  have b: "\<forall>err w'. refreshAccessToken e w = (Inl err, w') \<longrightarrow> tokenCache w' = tokenCache w"
    using refresh_error_keeps_cache by blast
  have c: "\<forall>tok w'. refreshAccessToken e w = (Inr tok, w') \<longrightarrow>
      tokenCache w' = tokenCache w \<or>
      (\<exists>res j. new_events w w' = [RefreshEntered, TokenCall (token_req e) (Response res)] \<and>
         ok (tr_status res) \<and> tr_json res = Some j \<and> tok = access_token j \<and> truthy_str tok \<and>
         tokenCache w' = \<lparr>accessToken = tok, expiresAt = expiry e (now w') (expires_in j)\<rparr>)"
    using refresh_cache_write[of e w] by blast
  have w: "\<exists>res. TokenCall (token_req e) (Response res) \<in> set (new_events w v) \<and> ok (tr_status res)"
    if "written_by_refresh e w v" "tokenCache v \<noteq> tokenCache w" for v
    using that by (auto simp: written_by_refresh_def new_events_def)
  have d: "\<forall>r w'. getAccessToken e w = (r, w') \<and> tokenCache w' \<noteq> tokenCache w \<longrightarrow>
      (\<exists>res. TokenCall (token_req e) (Response res) \<in> set (new_events w w') \<and> ok (tr_status res))"
    using get_steps[of e w] written_refresh[of e w] w by blast
  have f: "\<forall>r w'. fetchGoogle e url os retry w = (r, w') \<and> tokenCache w' \<noteq> tokenCache w \<longrightarrow>
      (\<exists>res. TokenCall (token_req e) (Response res) \<in> set (new_events w w') \<and> ok (tr_status res))"
    using written_fetch[of e url os retry w] w by blast
  from a b c d f show ?thesis by blast
qed

theorem cache_written_only_by_successful_refresh_witness:
  "fst (refreshAccessToken failing_token_env expired_world) = Inl (UpstreamError 503 (str ''{}'')) \<and>
   tokenCache (snd (refreshAccessToken failing_token_env expired_world)) =
     \<lparr>accessToken = Some (str ''T1''), expiresAt = Num 3541000\<rparr> \<and>
   fst (refreshAccessToken revoked_env start_world) = Inr (Some (str ''T1'')) \<and>
   tokenCache (snd (refreshAccessToken revoked_env start_world)) =
     \<lparr>accessToken = Some (str ''T1''), expiresAt = Num 3541000\<rparr> \<and>
   tokenCache (snd (fetchGoogle revoked_env (str ''u'') plain_get True start_world)) \<noteq>
     tokenCache start_world \<and>
   (\<exists>res. TokenCall (token_req revoked_env) (Response res)
            \<in> set (new_events start_world
                     (snd (fetchGoogle revoked_env (str ''u'') plain_get True start_world))) \<and>
          ok (tr_status res))"
proof -
  let ?f = "refreshAccessToken failing_token_env expired_world"
  have f: "?f = (Inl (UpstreamError 503 (str ''{}'')), snd ?f)"
    by (simp add: run_defs)
  note th1 = cache_written_only_by_successful_refresh[of failing_token_env expired_world,
                THEN conjunct2, THEN conjunct2, THEN conjunct1, rule_format, OF f]
  have c0: "tokenCache expired_world = \<lparr>accessToken = Some (str ''T1''), expiresAt = Num 3541000\<rparr>"
    by (simp add: expired_world_def world_at_def)
  let ?g = "refreshAccessToken revoked_env start_world"
  have g2: "tokenCache (snd ?g) = \<lparr>accessToken = Some (str ''T1''), expiresAt = Num 3541000\<rparr>"
    by (simp add: run_defs)
  let ?h = "fetchGoogle revoked_env (str ''u'') plain_get True start_world"
  have h: "?h = (fst ?h, snd ?h) \<and> tokenCache (snd ?h) \<noteq> tokenCache start_world"
    by (simp add: revoked_run start_world_simps initial_cache_def)
  note th2 = cache_written_only_by_successful_refresh[of revoked_env start_world "str ''u''" plain_get True,
                THEN conjunct2, THEN conjunct2, THEN conjunct2, THEN conjunct2, THEN conjunct2,
                rule_format, OF h]
  have f1: "fst ?f = Inl (UpstreamError 503 (str ''{}''))" by (simp add: run_defs)
  have g1: "fst ?g = Inr (Some (str ''T1''))" by (simp add: run_defs)
  from th1 c0 have f2: "tokenCache (snd ?f) = \<lparr>accessToken = Some (str ''T1''), expiresAt = Num 3541000\<rparr>"
    by simp
  from f1 f2 g1 g2 h th2 show ?thesis by blast
qed

end
